theory Spec2Isabelle
  imports Main
begin

section \<open>Template data values\<close>

text \<open>
  The values a template is rendered with are JavaScript values. The model keeps the
  JSON-shaped ones: numbers are restricted to integers (printed in plain decimal
  notation), an object is the list of its own properties in enumeration order with
  distinct keys, and inherited prototype members are left out.
\<close>

datatype jsval =
    JUndefined
  | JNull
  | JBool bool
  | JNum int
  | JStr string
  | JArr "jsval list"
  | JObj "(string \<times> jsval) list"

text \<open>JavaScript truthiness, as used by \<^verbatim>\<open>obj ? obj[val] : obj\<close> and \<^verbatim>\<open>a || b\<close>.\<close>

fun truthy :: "jsval \<Rightarrow> bool" where
  "truthy JUndefined = False"
| "truthy JNull = False"
| "truthy (JBool b) = b"
| "truthy (JNum n) = (n \<noteq> 0)"
| "truthy (JStr s) = (s \<noteq> [])"
| "truthy (JArr xs) = True"
| "truthy (JObj kvs) = True"

subsection \<open>Decimal numerals\<close>

definition digit_char :: "nat \<Rightarrow> char" where
  "digit_char d = char_of (48 + d)"

fun nat_to_string :: "nat \<Rightarrow> string" where
  "nat_to_string n =
     (if n < 10 then [digit_char n] else nat_to_string (n div 10) @ [digit_char (n mod 10)])"

definition int_to_string :: "int \<Rightarrow> string" where
  "int_to_string i = (if i < 0 then CHR ''-'' # nat_to_string (nat (- i)) else nat_to_string (nat i))"

definition is_digit :: "char \<Rightarrow> bool" where
  "is_digit c = (48 \<le> (of_char c :: nat) \<and> (of_char c :: nat) \<le> 57)"

definition digits_value :: "string \<Rightarrow> nat" where
  "digits_value s = foldl (\<lambda>acc c. 10 * acc + ((of_char c :: nat) - 48)) 0 s"

text \<open>An array index is a canonical numeral: digits only, no leading zero except \<open>0\<close> itself.\<close>

definition parse_index :: "string \<Rightarrow> nat option" where
  "parse_index s =
     (if s \<noteq> [] \<and> list_all is_digit s \<and> (s = ''0'' \<or> hd s \<noteq> CHR ''0'')
      then Some (digits_value s) else None)"

subsection \<open>Property access and \<^verbatim>\<open>find\<close>\<close>

text \<open>\<^verbatim>\<open>obj[val]\<close> for a truthy \<open>obj\<close> (the only place \<^verbatim>\<open>find\<close> reads a property).\<close>

fun get_prop :: "jsval \<Rightarrow> string \<Rightarrow> jsval" where
  "get_prop (JObj kvs) k = (case map_of kvs k of Some v \<Rightarrow> v | None \<Rightarrow> JUndefined)"
| "get_prop (JArr xs) k =
     (if k = ''length'' then JNum (int (length xs))
      else case parse_index k of
             Some n \<Rightarrow> (if n < length xs then xs ! n else JUndefined)
           | None \<Rightarrow> JUndefined)"
| "get_prop (JStr s) k =
     (if k = ''length'' then JNum (int (length s))
      else case parse_index k of
             Some n \<Rightarrow> (if n < length s then JStr [s ! n] else JUndefined)
           | None \<Rightarrow> JUndefined)"
| "get_prop v k = JUndefined"

text \<open>\<^verbatim>\<open>s.split(c)\<close> for a one-character separator: never the empty list.\<close>

fun split_on :: "char \<Rightarrow> string \<Rightarrow> string list" where
  "split_on c [] = [[]]"
| "split_on c (x # xs) =
     (if x = c then [] # split_on c xs
      else (case split_on c xs of
              [] \<Rightarrow> [[x]]
            | w # ws \<Rightarrow> (x # w) # ws))"

text \<open>
  \<^verbatim>\<open>
  export function find(query: string, data: object | any[]): any | undefined {
    return query.split('.').reduce<any>((obj, val) => {
      return obj ? obj[val] : obj
    }, data)
  }
  \<close>
\<close>

definition find_js :: "string \<Rightarrow> jsval \<Rightarrow> jsval" where
  "find_js query data =
     foldl (\<lambda>obj val. if truthy obj then get_prop obj val else obj) data (split_on CHR ''.'' query)"

subsection \<open>\<^verbatim>\<open>JSON.stringify\<close>\<close>

definition hex_char :: "nat \<Rightarrow> char" where
  "hex_char d = (if d < 10 then char_of (48 + d) else char_of (87 + d))"

definition json_escape_char :: "char \<Rightarrow> string" where
  "json_escape_char c =
     (let n = (of_char c :: nat) in
      if n = 34 then [CHR 0x5C, CHR 0x22]
      else if n = 92 then [CHR 0x5C, CHR 0x5C]
      else if n = 8 then [CHR 0x5C, CHR ''b'']
      else if n = 9 then [CHR 0x5C, CHR ''t'']
      else if n = 10 then [CHR 0x5C, CHR ''n'']
      else if n = 12 then [CHR 0x5C, CHR ''f'']
      else if n = 13 then [CHR 0x5C, CHR ''r'']
      else if n < 32 then [CHR 0x5C, CHR ''u'', CHR ''0'', CHR ''0'', hex_char (n div 16), hex_char (n mod 16)]
      else [c])"

definition json_quote :: "string \<Rightarrow> string" where
  "json_quote s = CHR 0x22 # concat (map json_escape_char s) @ [CHR 0x22]"

fun intersperse :: "string \<Rightarrow> string list \<Rightarrow> string" where
  "intersperse sep [] = []"
| "intersperse sep [x] = x"
| "intersperse sep (x # y # ys) = x @ sep @ intersperse sep (y # ys)"

text \<open>
  \<^verbatim>\<open>JSON.stringify(v)\<close>: \<open>None\<close> is the result \<^verbatim>\<open>undefined\<close> (no text at all). Inside an
  array an undefined element is written \<^verbatim>\<open>null\<close>; inside an object a property whose value
  is undefined is skipped.
\<close>

fun json_stringify :: "jsval \<Rightarrow> string option" where
  "json_stringify JUndefined = None"
| "json_stringify JNull = Some ''null''"
| "json_stringify (JBool b) = Some (if b then ''true'' else ''false'')"
| "json_stringify (JNum n) = Some (int_to_string n)"
| "json_stringify (JStr s) = Some (json_quote s)"
| "json_stringify (JArr xs) =
     Some (''['' @ intersperse '','' (map (\<lambda>x. case json_stringify x of Some t \<Rightarrow> t | None \<Rightarrow> ''null'') xs) @ '']'')"
| "json_stringify (JObj kvs) =
     Some (''{'' @ intersperse '',''
        (concat (map (\<lambda>(k, v). case json_stringify v of Some t \<Rightarrow> [json_quote k @ '':'' @ t] | None \<Rightarrow> []) kvs))
        @ ''}'')"

text \<open>The string a \<^verbatim>\<open>replace\<close> callback's return value is turned into.\<close>

definition callback_string :: "string option \<Rightarrow> string" where
  "callback_string r = (case r of Some t \<Rightarrow> t | None \<Rightarrow> ''undefined'')"

section \<open>Placeholder substitution for control attributes\<close>

text \<open>The dot of a regular expression matches any character but a line terminator.\<close>

definition is_line_terminator :: "char \<Rightarrow> bool" where
  "is_line_terminator c = (c = CHR 0x0A \<or> c = CHR 0x0D)"

definition is_prefix :: "string \<Rightarrow> string \<Rightarrow> bool" where
  "is_prefix p s = (take (length p) s = p)"

definition is_suffix :: "string \<Rightarrow> string \<Rightarrow> bool" where
  "is_suffix p s = (length p \<le> length s \<and> drop (length s - length p) s = p)"

text \<open>
  The positions \<open>k \<ge> 1\<close> at which \<^verbatim>\<open>}}\<close> starts inside the run of characters the dot can
  match. \<open>k\<close> is the length \<^verbatim>\<open>.+\<close> takes when the match closes there.
\<close>

definition close_positions :: "string \<Rightarrow> nat list" where
  "close_positions rest =
     (let seg = takeWhile (\<lambda>c. \<not> is_line_terminator c) rest
      in filter (\<lambda>k. take 2 (drop k rest) = ''}}'') [1..<length seg + 1])"

text \<open>The greedy \<^verbatim>\<open>.+\<close> of \<^verbatim>\<open>/\{\{\$.+\}\}/g\<close> closes at the last such position.\<close>

definition greedy_close :: "string \<Rightarrow> nat option" where
  "greedy_close rest = (case close_positions rest of [] \<Rightarrow> None | ks \<Rightarrow> Some (last ks))"

text \<open>\<^verbatim>\<open>i.replace(/^\{\{\$|\}\}$/g, '')\<close>\<close>

definition strip_holder :: "string \<Rightarrow> string" where
  "strip_holder i =
     (let a = (if is_prefix ''{{$'' i then drop 3 i else i)
      in if is_suffix ''}}'' a then take (length a - 2) a else a)"

text \<open>
  \<^verbatim>\<open>
  export function replaceHolders(text: string, data: object): string {
    return text.replace(/\{\{\$.+\}\}/g, (i) => {
      return JSON.stringify(find(i.replace(/^\{\{\$|\}\}$/g, ''), data))
    })
  }
  \<close>
  The scan is that of a global \<^verbatim>\<open>replace\<close>: the leftmost match is replaced by the
  callback's result, and the scan goes on after the match.
\<close>

definition holder_callback :: "jsval \<Rightarrow> string \<Rightarrow> string" where
  "holder_callback data i = callback_string (json_stringify (find_js (strip_holder i) data))"

function replaceHolders :: "string \<Rightarrow> jsval \<Rightarrow> string" where
  "replaceHolders text data =
     (case text of
        [] \<Rightarrow> []
      | c # cs \<Rightarrow>
          (if is_prefix ''{{$'' text then
             (case greedy_close (drop 3 text) of
                Some k \<Rightarrow> holder_callback data (take (k + 5) text) @ replaceHolders (drop (k + 5) text) data
              | None \<Rightarrow> c # replaceHolders cs data)
           else c # replaceHolders cs data))"
  by pat_completeness auto
termination
  by (relation "measure (\<lambda>(text, data). length text)") auto

declare replaceHolders.simps [simp del]

section \<open>Scopes and scoped lookups\<close>

record scope =
  reference :: string
  data :: jsval

record templateData =
  originalData :: jsval
  scopes :: "scope list"

text \<open>
  Modelled from the spec: the handlers that push a scope are not among the sources (the
  only call, \<^verbatim>\<open>data.scopes.push({ reference: key, data: dataObject })\<close> with its
  \<^verbatim>\<open>data.scopes.pop()\<close>, is in a commented-out version of \<^verbatim>\<open>each\<close>). The scopes are an
  ordered sequence; a scope is pushed when a loop body or a mixin is entered, and a push
  appends at the end of the array.
\<close>

definition push_scope :: "templateData \<Rightarrow> scope \<Rightarrow> templateData" where
  "push_scope td s = td\<lparr>scopes := scopes td @ [s]\<rparr>"

text \<open>\<^verbatim>\<open>s.replace(/^\$/, '')\<close>\<close>

fun strip_dollar :: "string \<Rightarrow> string" where
  "strip_dollar [] = []"
| "strip_dollar (c # cs) = (if c = CHR ''$'' then cs else c # cs)"

text \<open>
  \<^verbatim>\<open>
  export function getData(text: string, data: TemplateData, scope?: string) {
    let dataToSearch = data.originalData
    if (typeof scope == 'string') {
      dataToSearch = data.scopes && data.scopes.length > 0 ?
        (data.scopes.find(i => i.reference == scope) || { data: {} }).data : {}
    }
    return find(text.replace(/^\$/, ''), dataToSearch)
  }
  \<close>
  \<^verbatim>\<open>Array.prototype.find\<close> returns the element of lowest index that satisfies the
  test, as \<^const>\<open>List.find\<close> does.
\<close>

definition getData :: "string \<Rightarrow> templateData \<Rightarrow> string option \<Rightarrow> jsval" where
  "getData text td scope =
     (let dataToSearch =
        (case scope of
           None \<Rightarrow> originalData td
         | Some sc \<Rightarrow>
             (if scopes td \<noteq> [] then
                (case List.find (\<lambda>i. reference i = sc) (scopes td) of
                   Some s \<Rightarrow> data s
                 | None \<Rightarrow> JObj [])
              else JObj []))
      in find_js (strip_dollar text) dataToSearch)"

text \<open>A \<^verbatim>\<open>Nullable<T>\<close> argument: absent, \<^verbatim>\<open>null\<close>, or a value.\<close>

datatype 'a nullable = Undefined | Null | Val 'a

datatype keyval = KStr string | KNum int

datatype js_error = TypeError

text \<open>\<^verbatim>\<open>`${scope}`\<close>\<close>

fun scope_text :: "string nullable \<Rightarrow> string" where
  "scope_text Undefined = ''undefined''"
| "scope_text Null = ''null''"
| "scope_text (Val s) = s"

text \<open>\<^verbatim>\<open>!scope\<close>\<close>

fun scope_falsy :: "string nullable \<Rightarrow> bool" where
  "scope_falsy (Val s) = (s = [])"
| "scope_falsy n = True"

text \<open>\<^verbatim>\<open>(key || search.replace(/^\$/, '')).toString()\<close>\<close>

fun key_or :: "keyval nullable \<Rightarrow> string \<Rightarrow> string" where
  "key_or (Val (KStr s)) alt = (if s = [] then alt else s)"
| "key_or (Val (KNum n)) alt = (if n = 0 then alt else int_to_string n)"
| "key_or k alt = alt"

text \<open>
  \<^verbatim>\<open>
  export function getScopeData(search: string, data: TemplateData, scope?: Nullable<string>,
                               key?: Nullable<string | number>) {
    let dataToSearch = data.originalData
    if (search.split('.').length == 1 && !scope) {
      return data.originalData[search.replace(/^\$/, '')]
    } if (typeof scope == 'string' && scope.length > 0) {
      dataToSearch = data.scopes && data.scopes.length > 0 ?
        (data.scopes.find(i => i.reference == scope.replace(/^\$/, '')) || { data: {} }).data : {}
    }
    return find(search.replace(new RegExp(`^\\$${scope}`), (key || search.replace(/^\$/, '')).toString()), dataToSearch)
  }
  \<close>
  The regular expression is compiled at run time from the scope's text, so its matcher is
  the parameter \<open>regex_replace\<close>: pattern source, subject and replacement give the result
  of \<^verbatim>\<open>subject.replace(new RegExp(source), replacement)\<close>. Reading a property of an
  \<^verbatim>\<open>originalData\<close> that is \<^verbatim>\<open>null\<close> or \<^verbatim>\<open>undefined\<close> throws.
\<close>

definition getScopeData ::
  "(string \<Rightarrow> string \<Rightarrow> string \<Rightarrow> string) \<Rightarrow> string \<Rightarrow> templateData \<Rightarrow> string nullable \<Rightarrow> keyval nullable
     \<Rightarrow> js_error + jsval" where
  "getScopeData regex_replace search td scope key =
     (if length (split_on CHR ''.'' search) = 1 \<and> scope_falsy scope then
        (if originalData td = JUndefined \<or> originalData td = JNull then Inl TypeError
         else Inr (get_prop (originalData td) (strip_dollar search)))
      else
        (let dataToSearch =
           (case scope of
              Val sc \<Rightarrow>
                (if sc \<noteq> [] then
                   (if scopes td \<noteq> [] then
                      (case List.find (\<lambda>i. reference i = strip_dollar sc) (scopes td) of
                         Some s \<Rightarrow> data s
                       | None \<Rightarrow> JObj [])
                    else JObj [])
                 else originalData td)
            | _ \<Rightarrow> originalData td)
         in Inr (find_js (regex_replace ([CHR ''^'', CHR 0x5C, CHR ''$''] @ scope_text scope) search (key_or key (strip_dollar search)))
                   dataToSearch)))"

text \<open>
  A matcher for scope names made of word characters, where the pattern \<^verbatim>\<open>^\$name\<close>
  matches exactly the subjects that start with \<^verbatim>\<open>$name\<close>, and for replacements
  without \<^verbatim>\<open>$\<close>.
\<close>

definition literal_prefix_replace :: "string \<Rightarrow> string \<Rightarrow> string \<Rightarrow> string" where
  "literal_prefix_replace source subject replacement =
     (let lit = CHR ''$'' # drop 3 source
      in if is_prefix lit subject then replacement @ drop (length lit) subject else subject)"

section \<open>The document tree\<close>

text \<open>
  A node of the parsed document is an element (tag name, attributes, children) or a text
  node. A node is a value here, so \<^verbatim>\<open>cloneNode(true)\<close> is the identity, and a mutation
  of a child list is the new child list.
\<close>

datatype node =
    Element string "(string \<times> string) list" "node list"
  | Text string

definition lower_char :: "char \<Rightarrow> char" where
  "lower_char c =
     (let n = (of_char c :: nat) in if 65 \<le> n \<and> n \<le> 90 then char_of (n + 32) else c)"

definition toLowerCase :: "string \<Rightarrow> string" where
  "toLowerCase s = map lower_char s"

fun is_element :: "node \<Rightarrow> bool" where
  "is_element (Element name attrs kids) = True"
| "is_element (Text t) = False"

fun childNodes :: "node \<Rightarrow> node list" where
  "childNodes (Element name attrs kids) = kids"
| "childNodes (Text t) = []"

text \<open>\<^verbatim>\<open>node.nodeName.toLowerCase()\<close>; a text node is never asked.\<close>

fun tag_of :: "node \<Rightarrow> string" where
  "tag_of (Element name attrs kids) = toLowerCase name"
| "tag_of (Text t) = ''#text''"

fun getAttribute :: "string \<Rightarrow> node \<Rightarrow> string option" where
  "getAttribute a (Element name attrs kids) = map_of attrs a"
| "getAttribute a (Text t) = None"

text \<open>\<^verbatim>\<open>node.getAttribute(':') || 'false'\<close>: a missing and an empty attribute both are falsy.\<close>

definition control_or_false :: "node \<Rightarrow> string" where
  "control_or_false n =
     (case getAttribute '':'' n of None \<Rightarrow> ''false'' | Some v \<Rightarrow> (if v = [] then ''false'' else v))"

text \<open>The proper descendants of a node in document order.\<close>

fun descendants :: "node \<Rightarrow> node list" where
  "descendants (Text t) = []"
| "descendants (Element name attrs kids) = concat (map (\<lambda>k. k # descendants k) kids)"

text \<open>\<^verbatim>\<open>element.querySelectorAll('when, default')\<close>\<close>

definition is_when_default :: "node \<Rightarrow> bool" where
  "is_when_default n = (is_element n \<and> (tag_of n = ''when'' \<or> tag_of n = ''default''))"

definition querySelectorAll_when_default :: "node \<Rightarrow> node list" where
  "querySelectorAll_when_default element = filter is_when_default (descendants element)"

section \<open>The \<^verbatim>\<open>case\<close> handler\<close>

text \<open>
  \<^verbatim>\<open>caseBlock\<close> hands \<^verbatim>\<open>replaceHolders\<close> the \<^verbatim>\<open>TemplateData\<close> object itself, so a path
  is resolved from its two properties.
\<close>

definition scope_obj :: "scope \<Rightarrow> jsval" where
  "scope_obj s = JObj [(''reference'', JStr (reference s)), (''data'', data s)]"

definition templateData_obj :: "templateData \<Rightarrow> jsval" where
  "templateData_obj td =
     JObj [(''originalData'', originalData td), (''scopes'', JArr (map scope_obj (scopes td)))]"

text \<open>
  The loop over the \<^verbatim>\<open>when\<close>/\<^verbatim>\<open>default\<close> nodes: \<open>None\<close> when it runs to its end, the
  fragment of cloned children when it reaches \<^verbatim>\<open>break\<close>.
\<close>

fun case_loop :: "templateData \<Rightarrow> string \<Rightarrow> node list \<Rightarrow> node list option" where
  "case_loop td val [] = None"
| "case_loop td val (n # nodes) =
     (if tag_of n = ''default'' then Some (childNodes n)
      else
        (let condition = control_or_false n;
             result = (replaceHolders condition (templateData_obj td) = val)
         in if \<not> result then case_loop td val nodes
            else Some (childNodes n)))"

text \<open>
  \<^verbatim>\<open>
  export function caseBlock(root: Template, element: Element, data: TemplateData, mixins: Mixin[]) {
    if (!element.ownerDocument) return
    let nodes: Element[] = Array.from(element.querySelectorAll('when, default'))
    let value = replaceHolders(element.getAttribute(':') || 'false', data)
    let frag = element.ownerDocument.createDocumentFragment()
    for (let node of nodes) {
      if (node.nodeName.toLowerCase() == 'default') {
        for (let child of node.childNodes) { frag.appendChild(child.cloneNode(true)) }
      }
      else {
        let condition = node.getAttribute(':') || 'false'
        let result = replaceHolders(condition, data) == value
        if (!result) continue
        for (let child of node.childNodes) { frag.appendChild(child.cloneNode(true)) }
      }
      step(root, frag, data, mixins)
      element.replaceWith(frag)
      break
    }
    for (let node of nodes) { node.remove() }
    element.remove()
  }
  \<close>
  The result is the list of nodes that stands where the element stood. An element always
  has an owner document, so the first line never returns. The call of \<^verbatim>\<open>step\<close> on the
  fragment is not awaited: what it has done to the fragment (and to the data) when the
  fragment is spliced in is the parameter \<open>step_frag\<close>. After \<^verbatim>\<open>replaceWith\<close> the element
  is detached, so the removals that follow change nothing in the document; when no branch
  is taken they remove the element.
\<close>

definition caseBlock ::
  "(node list \<Rightarrow> templateData \<Rightarrow> node list \<times> templateData) \<Rightarrow> node \<Rightarrow> templateData
     \<Rightarrow> node list \<times> templateData" where
  "caseBlock step_frag element td =
     (let nodes = querySelectorAll_when_default element;
          val = replaceHolders (control_or_false element) (templateData_obj td)
      in case case_loop td val nodes of
           Some frag \<Rightarrow> step_frag frag td
         | None \<Rightarrow> ([], td))"

section \<open>The dispatcher\<close>

datatype handler =
    H_includeBlock
  | H_requireBlock
  | H_block
  | H_includeMixin
  | H_ifBlock
  | H_caseBlock
  | H_eachBlock
  | H_forBlock
  | H_debugBlock
  | H_remove

text \<open>
  The \<^verbatim>\<open>switch (name)\<close> of \<^verbatim>\<open>step\<close>, label by label in the order of the source; the first
  label that equals the name is taken.
  \<^verbatim>\<open>
  case 'include': await includeBlock(root, child, data, mixins) ...
  case 'require': await requireBlock(root, child, data, mixins) ...
  case 'block':   await block(root, child, data, mixins) ...
  case 'include': await includeMixin(root, child, data, mixins) ...
  case 'if':      await ifBlock(root, child, data, mixins) ...
  case 'case':    await caseBlock(root, child, data, mixins) ...
  case 'each':    await eachBlock(root, child, data, mixins) ...
  case 'for':     await forBlock(root, child, data, mixins) ...
  case 'debug':   await debugBlock(child, data) ...
  case 'elif':
  case 'else':    await remove(child) ...
  \<close>
\<close>

definition route :: "string \<Rightarrow> handler option" where
  "route name =
     (if name = ''include'' then Some H_includeBlock
      else if name = ''require'' then Some H_requireBlock
      else if name = ''block'' then Some H_block
      else if name = ''include'' then Some H_includeMixin
      else if name = ''if'' then Some H_ifBlock
      else if name = ''case'' then Some H_caseBlock
      else if name = ''each'' then Some H_eachBlock
      else if name = ''for'' then Some H_forBlock
      else if name = ''debug'' then Some H_debugBlock
      else if name = ''elif'' then Some H_remove
      else if name = ''else'' then Some H_remove
      else None)"

text \<open>
  The handlers other than \<^verbatim>\<open>caseBlock\<close> and \<^verbatim>\<open>remove\<close> are not part of the sources at
  hand. They are the parameter \<open>ext\<close>: given the handler, the index of the child in its
  parent's child list, that list and the data, it returns the new child list and data (a
  handler replaces or removes its element and siblings of it).
\<close>

type_synonym ext_handlers = "handler \<Rightarrow> nat \<Rightarrow> node list \<Rightarrow> templateData \<Rightarrow> node list \<times> templateData"

definition run_handler ::
  "ext_handlers \<Rightarrow> (node list \<Rightarrow> templateData \<Rightarrow> node list \<times> templateData) \<Rightarrow> handler \<Rightarrow> nat \<Rightarrow> node list
     \<Rightarrow> templateData \<Rightarrow> node list \<times> templateData" where
  "run_handler ext step_frag h i cs td =
     (case h of
        H_caseBlock \<Rightarrow>
          (case caseBlock step_frag (cs ! i) td of
             (frag, td') \<Rightarrow> (take i cs @ frag @ drop (Suc i) cs, td'))
      | H_remove \<Rightarrow> (take i cs @ drop (Suc i) cs, td)
      | _ \<Rightarrow> ext h i cs td)"

text \<open>
  \<^verbatim>\<open>
  export async function step(root, node, data, mixins): Promise<any> {
    for (let child of node.childNodes) {
      if (child.nodeType == root.dom.window.Node.TEXT_NODE && child.textContent) {
        // child.textContent = child.textContent.replace(/\{\{(.+)\}\}/g, (full, v) => getData(v, data))
      } else if (child instanceof root.dom.window.Element) {
        let name = child.nodeName.toLowerCase()
        switch (name) {
          ... await handler(root, child, data, mixins)
              return await step(root, node, data, mixins)
        }
        if (child.childNodes.length > 0) {
          await step(root, child, data, mixins)
        }
      }
    }
  }
  \<close>
  \<open>step ext step_frag n i cs td\<close> is the loop at the child of index \<open>i\<close> of the child list
  \<open>cs\<close>; a call of the source is \<open>i = 0\<close>. The walk need not end (a handler may put back
  what it was given), so it runs on fuel: \<open>None\<close> is a walk that has not returned within
  \<open>n\<close> steps.
\<close>

fun step ::
  "ext_handlers \<Rightarrow> (node list \<Rightarrow> templateData \<Rightarrow> node list \<times> templateData) \<Rightarrow> nat \<Rightarrow> nat \<Rightarrow> node list
     \<Rightarrow> templateData \<Rightarrow> (node list \<times> templateData) option" where
  "step ext step_frag 0 i cs td = None"
| "step ext step_frag (Suc n) i cs td =
     (if length cs \<le> i then Some (cs, td)
      else
        (case cs ! i of
           Text t \<Rightarrow> step ext step_frag n (Suc i) cs td
         | Element name attrs kids \<Rightarrow>
             (case route (toLowerCase name) of
                Some h \<Rightarrow>
                  (case run_handler ext step_frag h i cs td of
                     (cs', td') \<Rightarrow> step ext step_frag n 0 cs' td')
              | None \<Rightarrow>
                  (if kids \<noteq> [] then
                     (case step ext step_frag n 0 kids td of
                        None \<Rightarrow> None
                      | Some (kids', td') \<Rightarrow>
                          step ext step_frag n (Suc i) (cs[i := Element name attrs kids']) td')
                   else step ext step_frag n (Suc i) cs td))))"

text \<open>The tag names the dispatcher acts on, anywhere in a subtree.\<close>

fun routed_free :: "node \<Rightarrow> bool" where
  "routed_free (Text t) = True"
| "routed_free (Element name attrs kids) =
     (route (toLowerCase name) = None \<and> list_all routed_free kids)"

text \<open>Sample parameters: handlers that remove the element they are given, and a fragment
  step that has done nothing yet.\<close>

definition removing_handlers :: ext_handlers where
  "removing_handlers h i cs td = (take i cs @ drop (Suc i) cs, td)"

definition idle_step_frag :: "node list \<Rightarrow> templateData \<Rightarrow> node list \<times> templateData" where
  "idle_step_frag frag td = (frag, td)"

text \<open>The number of nodes of a subtree: a bound on the fuel a walk without handlers needs.\<close>

fun weight :: "node \<Rightarrow> nat" where
  "weight (Text t) = 1"
| "weight (Element name attrs kids) = Suc (sum_list (map weight kids))"

text \<open>
  A branch of a \<^verbatim>\<open>case\<close> matches a baseline: a \<^verbatim>\<open>default\<close> always does, a \<^verbatim>\<open>when\<close> does
  if its substituted control attribute equals the baseline.
\<close>

definition branch_matches :: "templateData \<Rightarrow> string \<Rightarrow> node \<Rightarrow> bool" where
  "branch_matches td baseline n =
     (tag_of n = ''default'' \<or> replaceHolders (control_or_false n) (templateData_obj td) = baseline)"

section \<open>The \<^verbatim>\<open>each\<close> handler\<close>

text \<open>
  This handler keeps its bindings in the context object of the expression evaluator: a
  map from global names to values. The evaluator \<^verbatim>\<open>runInContext(code, context)\<close> is a
  parameter; \<open>None\<close> is a throw (a syntax error, a reference to an unbound name).
  Expressions are taken to be free of side effects on the context.
\<close>

type_synonym vm_context = "string \<Rightarrow> jsval option"

type_synonym evaluator = "string \<Rightarrow> vm_context \<Rightarrow> jsval option"

text \<open>\<^verbatim>\<open>String(v)\<close>, which \<^verbatim>\<open>replace\<close> applies to what its callback returns.\<close>

fun to_string :: "jsval \<Rightarrow> string" where
  "to_string JUndefined = ''undefined''"
| "to_string JNull = ''null''"
| "to_string (JBool b) = (if b then ''true'' else ''false'')"
| "to_string (JNum n) = int_to_string n"
| "to_string (JStr s) = s"
| "to_string (JArr xs) =
     intersperse '','' (map (\<lambda>x. if x = JNull \<or> x = JUndefined then [] else to_string x) xs)"
| "to_string (JObj kvs) = ''[object Object]''"

text \<open>The lazy \<^verbatim>\<open>.+?\<close> of \<^verbatim>\<open>/\{\{(.+?)\}\}/g\<close> closes at the first position.\<close>

definition lazy_close :: "string \<Rightarrow> nat option" where
  "lazy_close rest = (case close_positions rest of [] \<Rightarrow> None | k # ks \<Rightarrow> Some k)"

text \<open>
  \<^verbatim>\<open>text.replace(/\{\{(.+?)\}\}/g, (full, itm) => ...)\<close>: the callback gets the whole match
  and the group between the braces.
\<close>

function replace_placeholders :: "(string \<Rightarrow> string \<Rightarrow> string) \<Rightarrow> string \<Rightarrow> string" where
  "replace_placeholders cb s =
     (case s of
        [] \<Rightarrow> []
      | c # cs \<Rightarrow>
          (if is_prefix ''{{'' s then
             (case lazy_close (drop 2 s) of
                Some k \<Rightarrow> cb (take (k + 4) s) (take k (drop 2 s)) @ replace_placeholders cb (drop (k + 4) s)
              | None \<Rightarrow> c # replace_placeholders cb cs)
           else c # replace_placeholders cb cs))"
  by pat_completeness auto
termination
  by (relation "measure (\<lambda>(cb, s). length s)") auto

declare replace_placeholders.simps [simp del]

text \<open>
  \<^verbatim>\<open>(full, itm) => { try { return runInContext(itm || '', context) || '' } catch (e) { return full } }\<close>
\<close>

definition placeholder_callback :: "evaluator \<Rightarrow> vm_context \<Rightarrow> string \<Rightarrow> string \<Rightarrow> string" where
  "placeholder_callback run ctx full itm =
     (case run itm ctx of
        None \<Rightarrow> full
      | Some v \<Rightarrow> (if truthy v then to_string v else []))"

definition is_space :: "char \<Rightarrow> bool" where
  "is_space c = ((of_char c :: nat) = 32 \<or> (9 \<le> (of_char c :: nat) \<and> (of_char c :: nat) \<le> 13))"

definition trim :: "string \<Rightarrow> string" where
  "trim s = rev (dropWhile is_space (rev (dropWhile is_space s)))"

text \<open>\<^verbatim>\<open>query.split(' in ')\<close>, the part in progress kept in reverse.\<close>

function split_in :: "string \<Rightarrow> string \<Rightarrow> string list" where
  "split_in cur s =
     (case s of
        [] \<Rightarrow> [rev cur]
      | c # cs \<Rightarrow>
          (if is_prefix '' in '' s then rev cur # split_in [] (drop 4 s)
           else split_in (c # cur) cs))"
  by pat_completeness auto
termination
  by (relation "measure (\<lambda>(cur, s). length s)") auto

declare split_in.simps [simp del]

text \<open>
  The names bound by the part before \<^verbatim>\<open>in\<close>, already trimmed: the key (empty when none)
  and the value. In \<^verbatim>\<open>[key, value] = list\<close> a list of one name leaves \<^verbatim>\<open>value\<close> undefined, and
  \<^verbatim>\<open>context[undefined]\<close> is the property \<^verbatim>\<open>undefined\<close>.
  \<^verbatim>\<open>
  if (placeholderKeys.startsWith('[') && placeholderKeys.endsWith(']')) {
    [key, value] = placeholderKeys.replace(/^\[|\]$/g, '').split(',').map(i => i.trim())
  } else {
    value = placeholderKeys
  }
  \<close>
\<close>

definition strip_brackets :: "string \<Rightarrow> string" where
  "strip_brackets s =
     (let a = (if is_prefix ''['' s then drop 1 s else s)
      in if is_suffix '']'' a then take (length a - 1) a else a)"

definition parse_keys :: "string \<Rightarrow> string \<times> string" where
  "parse_keys placeholderKeys =
     (if is_prefix ''['' placeholderKeys \<and> is_suffix '']'' placeholderKeys then
        (case map trim (split_on CHR '','' (strip_brackets placeholderKeys)) of
           [] \<Rightarrow> ([], ''undefined'')
         | [k] \<Rightarrow> (k, ''undefined'')
         | k # v # others \<Rightarrow> (k, v))
      else ([], placeholderKeys))"

text \<open>
  \<^verbatim>\<open>for (let i in data)\<close> with \<^verbatim>\<open>data[i]\<close>: the enumerable keys in order, each with its
  value. A number, a boolean, \<^verbatim>\<open>null\<close> and \<^verbatim>\<open>undefined\<close> have none.
\<close>

fun entries :: "jsval \<Rightarrow> (string \<times> jsval) list" where
  "entries (JArr xs) = zip (map nat_to_string [0..<length xs]) xs"
| "entries (JObj kvs) = kvs"
| "entries (JStr s) = zip (map nat_to_string [0..<length s]) (map (\<lambda>c. JStr [c]) s)"
| "entries v = []"

text \<open>
  The substitution in one cloned child. For an element the source rewrites
  \<^verbatim>\<open>clone.innerHTML\<close>; serialising and parsing belong to the document library, so
  \<open>inner f clone\<close> is the parameter for \<^verbatim>\<open>clone.innerHTML = f(clone.innerHTML)\<close>.
\<close>

definition substitute_clone ::
  "evaluator \<Rightarrow> ((string \<Rightarrow> string) \<Rightarrow> node \<Rightarrow> node) \<Rightarrow> vm_context \<Rightarrow> node \<Rightarrow> node" where
  "substitute_clone run inner ctx clone =
     (case clone of
        Text t \<Rightarrow>
          (if t \<noteq> [] then Text (replace_placeholders (placeholder_callback run ctx) t) else clone)
      | Element name attrs kids \<Rightarrow>
          inner (replace_placeholders (placeholder_callback run ctx)) clone)"

text \<open>
  The inner loop over the children of the \<^verbatim>\<open>each\<close> element. The \<^verbatim>\<open>step\<close> this handler
  calls on each clone is the dispatcher of its own version of the helpers, which is not
  among the sources: \<open>stepc\<close> gives the clone and the context after it.
\<close>

fun each_children ::
  "evaluator \<Rightarrow> ((string \<Rightarrow> string) \<Rightarrow> node \<Rightarrow> node) \<Rightarrow> (vm_context \<Rightarrow> node \<Rightarrow> node \<times> vm_context)
     \<Rightarrow> node list \<Rightarrow> node list \<times> vm_context \<Rightarrow> node list \<times> vm_context" where
  "each_children run inner stepc [] acc = acc"
| "each_children run inner stepc (child # rest) (frag, ctx) =
     (let clone = substitute_clone run inner ctx child
      in case stepc ctx clone of
           (clone', ctx') \<Rightarrow> each_children run inner stepc rest (frag @ [clone'], ctx'))"

text \<open>The outer loop: \<^verbatim>\<open>context[value] = data[i]; if (key) context[key] = i\<close>, then the children.\<close>

fun each_entries ::
  "evaluator \<Rightarrow> ((string \<Rightarrow> string) \<Rightarrow> node \<Rightarrow> node) \<Rightarrow> (vm_context \<Rightarrow> node \<Rightarrow> node \<times> vm_context)
     \<Rightarrow> string \<Rightarrow> string \<Rightarrow> node list \<Rightarrow> (string \<times> jsval) list \<Rightarrow> node list \<times> vm_context
     \<Rightarrow> node list \<times> vm_context" where
  "each_entries run inner stepc key val kids [] acc = acc"
| "each_entries run inner stepc key val kids ((i, v) # es) (frag, ctx) =
     (let ctx1 = ctx(val \<mapsto> v);
          ctx2 = (if key \<noteq> [] then ctx1(key \<mapsto> JStr i) else ctx1)
      in each_entries run inner stepc key val kids es
           (each_children run inner stepc kids (frag, ctx2)))"

text \<open>\<^verbatim>\<open>element.nextElementSibling\<close>, as an index into the parent's child list.\<close>

definition nextElementSibling :: "nat \<Rightarrow> node list \<Rightarrow> nat option" where
  "nextElementSibling i cs = List.find (\<lambda>j. is_element (cs ! j)) [Suc i..<length cs]"

text \<open>The \<^verbatim>\<open>nodes\<close> array of the handler: the next element sibling if it is an \<^verbatim>\<open>else\<close>.\<close>

definition else_sibling :: "nat \<Rightarrow> node list \<Rightarrow> nat option" where
  "else_sibling i cs =
     (case nextElementSibling i cs of
        None \<Rightarrow> None
      | Some j \<Rightarrow> (if tag_of (cs ! j) = ''else'' then Some j else None))"

definition remove_at :: "nat option \<Rightarrow> node list \<Rightarrow> node list" where
  "remove_at nodes cs = (case nodes of None \<Rightarrow> cs | Some j \<Rightarrow> take j cs @ drop (Suc j) cs)"

text \<open>
  \<^verbatim>\<open>
  export default async function each(context: Context, client: Client, root: Template, element: Element) {
    let query = element.getAttribute(':')
    let nodes: Element[] = []
    function getNext(element: Element) {
      if (!element.nextElementSibling) return
      let ref = element.nextElementSibling
      if (element.nextElementSibling.tagName.toLowerCase() == 'else') { nodes.push(ref) }
    }
    getNext(element)
    if (query && element.ownerDocument) {
      let key = '', value = ''
      let [placeholderKeys, placeholderData] = query.split(' in ')
      if (!placeholderKeys || !placeholderData) { element.remove(); return }
      placeholderKeys = placeholderKeys.trim()
      ... (the names, see parse_keys)
      let frag = element.ownerDocument.createDocumentFragment()
      let data: null | any[] = null
      try { data = runInContext(placeholderData, context) } catch (e) { }
      if ((!data || (Array.isArray(data) && data.length == 0)) && nodes.length == 1) {
        let frag = element.ownerDocument.createDocumentFragment()
        for (let node of nodes[0].childNodes) { frag.appendChild(node.cloneNode(true)) }
        return nodes[0].replaceWith(frag)
      }
      for (let i in data) {
        context[value] = data[i]
        if (key) context[key] = i
        for (let child of element.childNodes) {
          let clone = child.cloneNode(true)
          ... (the substitution, see substitute_clone)
          frag.appendChild(clone)
          await step(context, client, root, clone)
        }
      }
      element.replaceWith(frag)
    }
    for (let node of nodes) { node.remove() }
  }
  \<close>
  The element is the child of index \<open>i\<close> of the child list \<open>cs\<close>; the result is the new
  child list and the context. The \<^verbatim>\<open>else\<close> sibling lies after the element, so it keeps its
  index in the part of the list behind the element.
\<close>

definition each ::
  "evaluator \<Rightarrow> ((string \<Rightarrow> string) \<Rightarrow> node \<Rightarrow> node) \<Rightarrow> (vm_context \<Rightarrow> node \<Rightarrow> node \<times> vm_context)
     \<Rightarrow> nat \<Rightarrow> node list \<Rightarrow> vm_context \<Rightarrow> node list \<times> vm_context" where
  "each run inner stepc i cs ctx =
     (let element = cs ! i;
          nodes = else_sibling i cs
      in case getAttribute '':'' element of
           None \<Rightarrow> (remove_at nodes cs, ctx)
         | Some query \<Rightarrow>
             (if query = [] then (remove_at nodes cs, ctx)
              else
                (case split_in [] query of
                   [] \<Rightarrow> (take i cs @ drop (Suc i) cs, ctx)
                 | [placeholderKeys] \<Rightarrow> (take i cs @ drop (Suc i) cs, ctx)
                 | placeholderKeys # placeholderData # others \<Rightarrow>
                     (if placeholderKeys = [] \<or> placeholderData = [] then (take i cs @ drop (Suc i) cs, ctx)
                      else
                        (case parse_keys (trim placeholderKeys) of
                           (key, val) \<Rightarrow>
                             (let d = (case run placeholderData ctx of None \<Rightarrow> JNull | Some v \<Rightarrow> v)
                              in if (\<not> truthy d \<or> d = JArr []) \<and> nodes \<noteq> None then
                                   (case nodes of
                                      Some j \<Rightarrow> (take j cs @ childNodes (cs ! j) @ drop (Suc j) cs, ctx)
                                    | None \<Rightarrow> (cs, ctx))
                                 else
                                   (case each_entries run inner stepc key val (childNodes element)
                                           (entries d) ([], ctx) of
                                      (frag, ctx') \<Rightarrow>
                                        (take i cs @ frag @
                                           drop (Suc i) (remove_at nodes cs), ctx'))))))))"

text \<open>
  Sample parameters: an evaluator for expressions that are one identifier (its value in
  the context, a throw when it is unbound), an \<^verbatim>\<open>innerHTML\<close> that is left alone, and a
  nested step that changes neither the clone nor the context.
\<close>

definition ident_eval :: evaluator where
  "ident_eval code ctx = ctx code"

definition keep_inner :: "(string \<Rightarrow> string) \<Rightarrow> node \<Rightarrow> node" where
  "keep_inner f clone = clone"

definition idle_stepc :: "vm_context \<Rightarrow> node \<Rightarrow> node \<times> vm_context" where
  "idle_stepc ctx clone = (clone, ctx)"

definition items_context :: vm_context where
  "items_context = [''items'' \<mapsto> JArr [JNum 1, JNum 2]]"

section \<open>The template resolver\<close>

text \<open>
  \<^verbatim>\<open>
  export interface Template {
    dom: JSDOM
    document: Document
    body: HTMLBodyElement
    file: string
    child?: Template
  }
  \<close>
  The field \<^verbatim>\<open>document\<close> is a \<^verbatim>\<open>Document\<close> node, given by its children: the document
  element and what stands beside it. \<open>file_of\<close> is the field \<^verbatim>\<open>file\<close>.
\<close>

datatype dom_document = Document "node list"

datatype template = Template (document: dom_document) (file_of: string) (child: "template option")

datatype dom_error = HierarchyRequestError | LoadError

fun document_children :: "dom_document \<Rightarrow> node list" where
  "document_children (Document cs) = cs"

definition documentElement :: "dom_document \<Rightarrow> node option" where
  "documentElement doc = List.find is_element (document_children doc)"

definition is_extends :: "node \<Rightarrow> bool" where
  "is_extends n = (is_element n \<and> tag_of n = ''extends'')"

text \<open>
  \<^verbatim>\<open>document.querySelector(':scope > extends')\<close>: for a query on a document, \<^verbatim>\<open>:scope\<close> is
  the document element, so the result is the first child of the document element that is
  named \<^verbatim>\<open>extends\<close>.
\<close>

definition querySelector_scope_extends :: "dom_document \<Rightarrow> node option" where
  "querySelector_scope_extends doc =
     (case documentElement doc of
        None \<Rightarrow> None
      | Some root \<Rightarrow> List.find is_extends (childNodes root))"

text \<open>
  \<^verbatim>\<open>parent.document.querySelector('extends')\<close>: the first element in document order of that
  name, together with \<^verbatim>\<open>ext.parentElement != null\<close>. Only a child of the document itself
  has no parent element.
\<close>

fun querySelector_extends :: "node list \<Rightarrow> (node \<times> bool) option" where
  "querySelector_extends [] = None"
| "querySelector_extends (c # cs) =
     (if is_extends c then Some (c, False)
      else (case List.find is_extends (descendants c) of
              Some e \<Rightarrow> Some (e, True)
            | None \<Rightarrow> querySelector_extends cs))"

text \<open>
  \<^verbatim>\<open>
  export async function extend(tpl: Template) {
    let document = tpl.document
    let item = document.querySelector(':scope > extends')
    if (!item) return tpl
    let inclFileName = item.getAttribute('file')
    if (inclFileName && item.parentElement) {
      let dir = path.dirname(tpl.file)
      let file = path.resolve(dir, inclFileName + (!inclFileName.endsWith('.rtpl') ? '.rtpl' : ''))
      let parent = await parseFile(file)
      if (parent) {
        parent.child = tpl
        let ext = parent.document.querySelector('extends')
        if (ext && ext.parentElement) {
          ext.replaceWith(tpl.document)
          extend(parent)
        }
        return parent
      }
    }
    return tpl
  }
  \<close>
  \<^verbatim>\<open>path.dirname\<close>, \<^verbatim>\<open>path.resolve\<close> and the loader \<^verbatim>\<open>parseFile\<close> are parameters; a loader
  that rejects makes \<^verbatim>\<open>extend\<close> reject. The item is a child of the document element, so
  it has a parent element. \<^verbatim>\<open>ext.replaceWith(tpl.document)\<close> asks the tree to take a
  \<^verbatim>\<open>Document\<close> node as a child of an element: the insertion is refused with a
  \<^verbatim>\<open>HierarchyRequestError\<close> before anything is changed, so the call \<^verbatim>\<open>extend(parent)\<close>
  behind it is never reached.
\<close>

definition extend ::
  "(string \<Rightarrow> string) \<Rightarrow> (string \<Rightarrow> string \<Rightarrow> string) \<Rightarrow> (string \<Rightarrow> dom_error + template option) \<Rightarrow> template
     \<Rightarrow> dom_error + template" where
  "extend dirname resolve parseFile tpl =
     (case querySelector_scope_extends (document tpl) of
        None \<Rightarrow> Inr tpl
      | Some item \<Rightarrow>
          (case getAttribute ''file'' item of
             None \<Rightarrow> Inr tpl
           | Some inclFileName \<Rightarrow>
               (if inclFileName = [] then Inr tpl
                else
                  (let dir = dirname (file_of tpl);
                       f = resolve dir
                             (inclFileName @ (if \<not> is_suffix ''.rtpl'' inclFileName then ''.rtpl'' else []))
                   in case parseFile f of
                        Inl e \<Rightarrow> Inl e
                      | Inr None \<Rightarrow> Inr tpl
                      | Inr (Some loaded) \<Rightarrow>
                          (let parent = Template (document loaded) (file_of loaded) (Some tpl)
                           in case querySelector_extends (document_children (document parent)) of
                                None \<Rightarrow> Inr parent
                              | Some (ext, has_parentElement) \<Rightarrow>
                                  (if has_parentElement then Inl HierarchyRequestError
                                   else Inr parent))))))"

text \<open>Sample parameters: all templates in one directory, loaded from a table.\<close>

definition flat_dirname :: "string \<Rightarrow> string" where
  "flat_dirname f = ''.''"

definition flat_resolve :: "string \<Rightarrow> string \<Rightarrow> string" where
  "flat_resolve dir name = name"

definition load_from :: "(string \<times> template) list \<Rightarrow> string \<Rightarrow> dom_error + template option" where
  "load_from table f = Inr (map_of table f)"

text \<open>The assignments at the head of one iteration of \<^verbatim>\<open>each\<close>, for the entry \<open>e\<close>.\<close>

definition bind_entry :: "string \<Rightarrow> string \<Rightarrow> vm_context \<Rightarrow> string \<times> jsval \<Rightarrow> vm_context" where
  "bind_entry key val ctx e =
     (if key \<noteq> [] then (ctx(val \<mapsto> snd e))(key \<mapsto> JStr (fst e)) else ctx(val \<mapsto> snd e))"

text \<open>
  A sample chain: \<^verbatim>\<open>A\<close> extends \<^verbatim>\<open>B\<close>, \<^verbatim>\<open>B\<close> extends \<^verbatim>\<open>C\<close>, and \<^verbatim>\<open>C\<close> has a slot in its body;
  the \<^verbatim>\<open>extends\<close> elements are children of the document element. \<open>chain_B_plain\<close> is a
  parent without any \<^verbatim>\<open>extends\<close> element. \<open>parsed_A\<close> has the shape an HTML parser gives
  the file of \<^verbatim>\<open>A\<close>: the document element holds a head and a body, and the content is
  in the body.
\<close>

definition chain_A :: template where
  "chain_A = Template (Document [Element ''html'' [] [Element ''extends'' [(''file'', ''B'')] [],
                                                      Element ''p'' [] [Text ''a'']]]) ''A.rtpl'' None"

definition chain_B :: template where
  "chain_B = Template (Document [Element ''html'' [] [Element ''extends'' [(''file'', ''C'')] [],
                                                      Element ''h1'' [] [Text ''b'']]]) ''B.rtpl'' None"

definition chain_B_plain :: template where
  "chain_B_plain = Template (Document [Element ''html'' [] [Element ''h1'' [] [Text ''b'']]]) ''B.rtpl'' None"

definition chain_C :: template where
  "chain_C = Template (Document [Element ''html'' [] [Element ''body'' [] [Element ''extends'' [] []]]])
               ''C.rtpl'' None"

definition parsed_A :: template where
  "parsed_A = Template (Document [Element ''html'' []
                 [Element ''head'' [] [],
                  Element ''body'' [] [Element ''extends'' [(''file'', ''B'')] [],
                                       Element ''p'' [] [Text ''a'']]]]) ''A.rtpl'' None"



text \<open>The text contents of the text nodes of a subtree, and of a child list, in document order.\<close>

fun all_texts :: "node \<Rightarrow> string list" where
  "all_texts (Text t) = [t]"
| "all_texts (Element name attrs kids) = concat (map all_texts kids)"

definition texts :: "node list \<Rightarrow> string list" where
  "texts cs = concat (map all_texts cs)"

text \<open>Handlers, and a fragment step, that bring no text content into the tree that was not there.\<close>

definition text_preserving :: "ext_handlers \<Rightarrow> bool" where
  "text_preserving ext =
     (\<forall>h i cs td. i < length cs \<longrightarrow> set (texts (fst (ext h i cs td))) \<subseteq> set (texts cs))"

definition text_preserving_frag :: "(node list \<Rightarrow> templateData \<Rightarrow> node list \<times> templateData) \<Rightarrow> bool" where
  "text_preserving_frag sf = (\<forall>frag td. set (texts (fst (sf frag td))) \<subseteq> set (texts frag))"

text \<open>
  The groups that \<^verbatim>\<open>/\{\{(.+?)\}\}/g\<close> matches in a text, in order: the expressions that
  the substitution of that text evaluates.
\<close>

function placeholder_items :: "string \<Rightarrow> string list" where
  "placeholder_items s =
     (case s of
        [] \<Rightarrow> []
      | c # cs \<Rightarrow>
          (if is_prefix ''{{'' s then
             (case lazy_close (drop 2 s) of
                Some k \<Rightarrow> take k (drop 2 s) # placeholder_items (drop (k + 4) s)
              | None \<Rightarrow> placeholder_items cs)
           else placeholder_items cs))"
  by pat_completeness auto
termination
  by (relation "measure length") auto

declare placeholder_items.simps [simp del]

text \<open>
  A second sample evaluator: the empty program is \<^verbatim>\<open>undefined\<close>, a decimal literal is its
  number, and any other code is read as an identifier, which throws when it is unbound.
\<close>

definition literal_eval :: evaluator where
  "literal_eval code ctx =
     (if code = [] then Some JUndefined
      else if list_all is_digit code then Some (JNum (int (digits_value code)))
      else ctx code)"

section \<open>Verified properties\<close>

subsection \<open>Control-attribute substitution\<close>

text \<open>
  C8. \<^verbatim>\<open>replaceHolders\<close> is meant to replace each \<^verbatim>\<open>{{$path}}\<close> placeholder on its own
  and keep the text between placeholders. With two placeholders on one line the greedy
  \<^verbatim>\<open>.+\<close> takes everything from the first \<^verbatim>\<open>{{$\<close> to the last \<^verbatim>\<open>}}\<close> as one match: the
  path looked up is \<^verbatim>\<open>a}}-{{$b\<close>, which is undefined, and the whole line becomes the text
  \<^verbatim>\<open>undefined\<close> instead of \<^verbatim>\<open>1-2\<close>.
\<close>

theorem replaceHolders_two_placeholders:
  "replaceHolders ''{{$a}}-{{$b}}'' (JObj [(''a'', JNum 1), (''b'', JNum 2)]) = ''undefined''"
  by code_simp

subsection \<open>Scoped lookups\<close>

text \<open>
  C3. The claim: of two scopes with the same reference the most recently pushed one is
  selected. After pushing \<^verbatim>\<open>item\<close> with the name \<^verbatim>\<open>old\<close> and then \<^verbatim>\<open>item\<close> with the name
  \<^verbatim>\<open>new\<close>, both lookups answer \<^verbatim>\<open>old\<close>.
\<close>

theorem scoped_lookup_selects_oldest:
  "getData ''$name''
     (push_scope (push_scope \<lparr>originalData = JObj [(''name'', JStr ''root'')], scopes = []\<rparr>
                    \<lparr>reference = ''item'', data = JObj [(''name'', JStr ''old'')]\<rparr>)
        \<lparr>reference = ''item'', data = JObj [(''name'', JStr ''new'')]\<rparr>)
     (Some ''item'') = JStr ''old'' \<and>
   getScopeData literal_prefix_replace ''$item''
     (push_scope (push_scope \<lparr>originalData = JObj [(''name'', JStr ''root'')], scopes = []\<rparr>
                    \<lparr>reference = ''item'', data = JObj [(''name'', JStr ''old'')]\<rparr>)
        \<lparr>reference = ''item'', data = JObj [(''name'', JStr ''new'')]\<rparr>)
     (Val ''item'') (Val (KStr ''name'')) = Inr (JStr ''old'')"
  by code_simp

lemma find_first_scope:
  "\<forall>p\<in>set pre. reference p \<noteq> r \<Longrightarrow> reference s = r \<Longrightarrow>
     List.find (\<lambda>i. reference i = r) (pre @ s # post) = Some s"
  by (induction pre) simp_all

text \<open>
  C3, as the code has it: \<^verbatim>\<open>Array.prototype.find\<close> walks the scope array from its
  start, where the oldest scope is. With a scope reference given, \<^verbatim>\<open>getData\<close> and
  \<^verbatim>\<open>getScopeData\<close> read the first entry of that reference (leading \<^verbatim>\<open>$\<close> stripped from the
  requested name in \<^verbatim>\<open>getScopeData\<close>), which is the earliest pushed one; without a
  scope reference both read \<^verbatim>\<open>originalData\<close>.
\<close>

theorem scoped_lookup_first_match:
  assumes "scopes td = pre @ s # post"
    and "\<forall>p\<in>set pre. reference p \<noteq> reference s"
    and "sc \<noteq> []" and "strip_dollar sc = reference s"
    and "scope_falsy unscoped"
  shows "getData path td (Some (reference s)) = find_js (strip_dollar path) (data s) \<and>
         getScopeData rx search td (Val sc) key
           = Inr (find_js (rx ([CHR ''^'', CHR 0x5C, CHR ''$''] @ sc) search (key_or key (strip_dollar search))) (data s)) \<and>
         getData upath td None = find_js (strip_dollar upath) (originalData td) \<and>
         getScopeData rx usearch td unscoped ukey
           = (if length (split_on CHR ''.'' usearch) = 1 then
                (if originalData td = JUndefined \<or> originalData td = JNull then Inl TypeError
                 else Inr (get_prop (originalData td) (strip_dollar usearch)))
              else Inr (find_js (rx ([CHR ''^'', CHR 0x5C, CHR ''$''] @ scope_text unscoped) usearch
                                    (key_or ukey (strip_dollar usearch))) (originalData td)))"
proof -
  have f: "List.find (\<lambda>i. reference i = reference s) (scopes td) = Some s"
    using assms(1,2) by (simp add: find_first_scope)
  have ne: "scopes td \<noteq> []" using assms(1) by simp
  have a: "getData path td (Some (reference s)) = find_js (strip_dollar path) (data s)"
    using f ne by (simp add: getData_def)
  have b: "getScopeData rx search td (Val sc) key
           = Inr (find_js (rx ([CHR ''^'', CHR 0x5C, CHR ''$''] @ sc) search (key_or key (strip_dollar search))) (data s))"
    using f ne assms(3,4) by (simp add: getScopeData_def)
  have c: "getData upath td None = find_js (strip_dollar upath) (originalData td)"
    by (simp add: getData_def)
  have d: "getScopeData rx usearch td unscoped ukey
           = (if length (split_on CHR ''.'' usearch) = 1 then
                (if originalData td = JUndefined \<or> originalData td = JNull then Inl TypeError
                 else Inr (get_prop (originalData td) (strip_dollar usearch)))
              else Inr (find_js (rx ([CHR ''^'', CHR 0x5C, CHR ''$''] @ scope_text unscoped) usearch
                                    (key_or ukey (strip_dollar usearch))) (originalData td)))"
    using assms(5) by (cases unscoped) (simp_all add: getScopeData_def)
  from a b c d show ?thesis by blast
qed

theorem scoped_lookup_first_match_witness:
  "scopes \<lparr>originalData = JObj [(''name'', JStr ''root'')],
        scopes = [\<lparr>reference = ''item'', data = JObj [(''name'', JStr ''old'')]\<rparr>,
                  \<lparr>reference = ''item'', data = JObj [(''name'', JStr ''new'')]\<rparr>]\<rparr> = [] @ \<lparr>reference = ''item'', data = JObj [(''name'', JStr ''old'')]\<rparr> # [\<lparr>reference = ''item'', data = JObj [(''name'', JStr ''new'')]\<rparr>] \<and>
   getData ''$name'' \<lparr>originalData = JObj [(''name'', JStr ''root'')],
        scopes = [\<lparr>reference = ''item'', data = JObj [(''name'', JStr ''old'')]\<rparr>,
                  \<lparr>reference = ''item'', data = JObj [(''name'', JStr ''new'')]\<rparr>]\<rparr> (Some ''item'') = JStr ''old'' \<and>
   getScopeData literal_prefix_replace ''$item'' \<lparr>originalData = JObj [(''name'', JStr ''root'')],
        scopes = [\<lparr>reference = ''item'', data = JObj [(''name'', JStr ''old'')]\<rparr>,
                  \<lparr>reference = ''item'', data = JObj [(''name'', JStr ''new'')]\<rparr>]\<rparr> (Val ''item'') (Val (KStr ''name'')) = Inr (JStr ''old'') \<and>
   getData ''$name'' \<lparr>originalData = JObj [(''name'', JStr ''root'')],
        scopes = [\<lparr>reference = ''item'', data = JObj [(''name'', JStr ''old'')]\<rparr>,
                  \<lparr>reference = ''item'', data = JObj [(''name'', JStr ''new'')]\<rparr>]\<rparr> None = JStr ''root'' \<and>
   getScopeData literal_prefix_replace ''$name'' \<lparr>originalData = JObj [(''name'', JStr ''root'')],
        scopes = [\<lparr>reference = ''item'', data = JObj [(''name'', JStr ''old'')]\<rparr>,
                  \<lparr>reference = ''item'', data = JObj [(''name'', JStr ''new'')]\<rparr>]\<rparr> Null Null = Inr (JStr ''root'')"
proof -
  have h1: "scopes \<lparr>originalData = JObj [(''name'', JStr ''root'')],
        scopes = [\<lparr>reference = ''item'', data = JObj [(''name'', JStr ''old'')]\<rparr>,
                  \<lparr>reference = ''item'', data = JObj [(''name'', JStr ''new'')]\<rparr>]\<rparr> = [] @ \<lparr>reference = ''item'', data = JObj [(''name'', JStr ''old'')]\<rparr> # [\<lparr>reference = ''item'', data = JObj [(''name'', JStr ''new'')]\<rparr>]" by simp
  have h2: "\<forall>p\<in>set []. reference p \<noteq> reference \<lparr>reference = ''item'', data = JObj [(''name'', JStr ''old'')]\<rparr>" by simp
  have h3: "''item'' \<noteq> []" by simp
  have h4: "strip_dollar ''item'' = reference \<lparr>reference = ''item'', data = JObj [(''name'', JStr ''old'')]\<rparr>" by simp
  have h5: "scope_falsy Null" by simp
  have e1: "find_js ''name'' (JObj [(''name'', JStr ''old'')]) = JStr ''old''" by code_simp
  have e2: "find_js ''name'' (JObj [(''name'', JStr ''root'')]) = JStr ''root''" by code_simp
  have e3: "length (split_on CHR ''.'' ''$name'') = 1" by code_simp
  have e4: "get_prop (JObj [(''name'', JStr ''root'')]) ''name'' = JStr ''root''" by code_simp
  have e5: "literal_prefix_replace [CHR ''^'', CHR 0x5C, CHR ''$'', CHR ''i'', CHR ''t'', CHR ''e'', CHR ''m'']
      ''$item'' ''name'' = ''name''"
    by code_simp
  show ?thesis
    using h1 scoped_lookup_first_match[OF h1 h2 h3 h4 h5, where path = "''$name''"
        and rx = literal_prefix_replace and search = "''$item''" and key = "Val (KStr ''name'')"
        and upath = "''$name''" and usearch = "''$name''" and ukey = Null]
    by (simp add: e1 e2 e3 e4 e5)
qed

subsection \<open>The dispatcher\<close>


lemma step_routed_free_unchanged:
  "list_all routed_free cs \<Longrightarrow> sum_list (map weight (drop i cs)) < n \<Longrightarrow> step ext sf n i cs td = Some (cs, td)"
proof (induction n arbitrary: i cs td)
  case 0
  then show ?case by simp
next
  case (Suc n)
  show ?case
  proof (cases "length cs \<le> i")
    case True
    then show ?thesis by simp
  next
    case False
    then have i: "i < length cs" by simp
    then have d: "drop i cs = cs ! i # drop (Suc i) cs" by (simp add: Cons_nth_drop_Suc)
    from i Suc.prems(1) have rf: "routed_free (cs ! i)" by (simp add: list_all_length)
    show ?thesis
    proof (cases "cs ! i")
      case (Text t)
      with d Suc.prems(2) have "sum_list (map weight (drop (Suc i) cs)) < n" by simp
      then have "step ext sf n (Suc i) cs td = Some (cs, td)" using Suc.IH Suc.prems(1) by blast
      with False Text show ?thesis by simp
    next
      case (Element name attrs kids)
      with rf have r: "route (toLowerCase name) = None" and ck: "list_all routed_free kids" by simp_all
      from d Element Suc.prems(2) have b1: "sum_list (map weight (drop (Suc i) cs)) < n"
        and b2: "sum_list (map weight (drop 0 kids)) < n" by simp_all
      have s1: "step ext sf n (Suc i) cs td = Some (cs, td)" using Suc.IH[OF Suc.prems(1) b1] .
      have s2: "step ext sf n 0 kids td = Some (kids, td)" using Suc.IH[OF ck b2] .
      have "cs[i := Element name attrs kids] = cs" using Element by (metis list_update_id)
      with False Element r s1 s2 show ?thesis by simp
    qed
  qed
qed






lemma case_loop_weight:
  "case_loop td val nodes = Some frag \<Longrightarrow> \<exists>b\<in>set nodes. frag = childNodes b"
  by (induction nodes) (auto simp: Let_def split: if_splits)









text \<open>
  C5. The dispatcher is meant to route a mixin invocation to \<^verbatim>\<open>includeMixin\<close>. The label
  that guards that call is a second \<^verbatim>\<open>case 'include'\<close>, which no name reaches: no tag
  name is routed to \<^verbatim>\<open>includeMixin\<close>, and an \<^verbatim>\<open>include\<close> element goes to
  \<^verbatim>\<open>includeBlock\<close>.
\<close>

theorem step_never_routes_to_includeMixin:
  "route name \<noteq> Some H_includeMixin \<and>
   route (toLowerCase ''include'') = Some H_includeBlock \<and>
   step ext sf (Suc n) 0 [Element ''include'' attrs kids] td
     = (case ext H_includeBlock 0 [Element ''include'' attrs kids] td of
          (cs', td') \<Rightarrow> step ext sf n 0 cs' td')"
proof -
  have l: "toLowerCase ''include'' = ''include''" by code_simp
  show ?thesis by (simp add: l route_def run_handler_def)
qed

text \<open>
  C6. The claim: the walk rewrites every \<^verbatim>\<open>{{$path}}\<close> placeholder of a text node it
  reaches. The branch of \<^verbatim>\<open>step\<close> for text nodes is empty (the replacement is commented
  out): with \<^verbatim>\<open>x = 1\<close> in the data, the text \<^verbatim>\<open>{{$x}}\<close> comes back as it was.
\<close>

theorem step_leaves_placeholder_text:
  "step removing_handlers idle_step_frag 3 0 [Text ''{{$x}}''] \<lparr>originalData = JObj [(''x'', JNum 1)], scopes = []\<rparr>
     = Some ([Text ''{{$x}}''], \<lparr>originalData = JObj [(''x'', JNum 1)], scopes = []\<rparr>)"
  by code_simp

lemma texts_append: "texts (xs @ ys) = texts xs @ texts ys"
  by (simp add: texts_def)

lemma texts_Cons: "texts (x # xs) = all_texts x @ texts xs"
  by (simp add: texts_def)

lemma texts_childNodes_subset: "set (texts (childNodes b)) \<subseteq> set (all_texts b)"
  by (cases b) (simp_all add: texts_def)

lemma all_texts_descendant: "b \<in> set (descendants e) \<Longrightarrow> set (all_texts b) \<subseteq> set (all_texts e)"
proof (induction e arbitrary: b)
  case (Text t)
  then show ?case by simp
next
  case (Element name attrs kids)
  then obtain k where k: "k \<in> set kids" and b: "b = k \<or> b \<in> set (descendants k)" by auto
  have "set (all_texts b) \<subseteq> set (all_texts k)" using b Element.IH[OF k] by auto
  then show ?case using k by auto
qed

lemma texts_splice:
  assumes "i < length cs" "set (texts frag) \<subseteq> set (all_texts (cs ! i))"
  shows "set (texts (take i cs @ frag @ drop (Suc i) cs)) \<subseteq> set (texts cs)"
proof -
  have "cs = take i cs @ cs ! i # drop (Suc i) cs" using assms(1) by (simp add: id_take_nth_drop)
  then have "texts cs = texts (take i cs) @ all_texts (cs ! i) @ texts (drop (Suc i) cs)"
    by (metis texts_append texts_Cons)
  then show ?thesis using assms(2) by (auto simp: texts_append)
qed

lemma run_handler_texts:
  assumes "text_preserving ext" "text_preserving_frag sf" "i < length cs"
  shows "set (texts (fst (run_handler ext sf h i cs td))) \<subseteq> set (texts cs)"
proof (cases h)
  case H_caseBlock
  obtain frag td1 where cb: "caseBlock sf (cs ! i) td = (frag, td1)"
    by (cases "caseBlock sf (cs ! i) td")
  have "set (texts frag) \<subseteq> set (all_texts (cs ! i))"
  proof (cases "case_loop td (replaceHolders (control_or_false (cs ! i)) (templateData_obj td))
                  (querySelectorAll_when_default (cs ! i))")
    case None
    with cb show ?thesis by (simp add: caseBlock_def Let_def texts_def)
  next
    case (Some fr)
    then obtain b where b: "b \<in> set (querySelectorAll_when_default (cs ! i))" and f: "fr = childNodes b"
      using case_loop_weight by blast
    then have "b \<in> set (descendants (cs ! i))" by (simp add: querySelectorAll_when_default_def)
    then have "set (all_texts b) \<subseteq> set (all_texts (cs ! i))" by (rule all_texts_descendant)
    moreover have "set (texts fr) \<subseteq> set (all_texts b)" using f texts_childNodes_subset by simp
    moreover have "set (texts (fst (sf fr td))) \<subseteq> set (texts fr)"
      using assms(2) by (simp add: text_preserving_frag_def)
    moreover have "frag = fst (sf fr td)" using Some cb by (simp add: caseBlock_def Let_def)
    ultimately show ?thesis by blast
  qed
  then have "set (texts (take i cs @ frag @ drop (Suc i) cs)) \<subseteq> set (texts cs)"
    using texts_splice[OF assms(3)] by blast
  with H_caseBlock cb show ?thesis by (simp add: run_handler_def)
next
  case H_remove
  have "set (texts (take i cs @ [] @ drop (Suc i) cs)) \<subseteq> set (texts cs)"
    using texts_splice[OF assms(3), of "[]"] by (simp add: texts_def)
  with H_remove show ?thesis by (simp add: run_handler_def)
qed (use assms(1,3) in \<open>simp_all add: run_handler_def text_preserving_def\<close>)

lemma step_texts:
  assumes "text_preserving ext" "text_preserving_frag sf"
  shows "step ext sf n i cs td = Some (cs', td') \<Longrightarrow> set (texts cs') \<subseteq> set (texts cs)"
proof (induction n arbitrary: i cs td cs' td')
  case 0
  then show ?case by simp
next
  case (Suc n)
  show ?case
  proof (cases "length cs \<le> i")
    case True
    with Suc.prems show ?thesis by simp
  next
    case False
    then have i: "i < length cs" by simp
    show ?thesis
    proof (cases "cs ! i")
      case (Text t)
      with Suc.prems False have "step ext sf n (Suc i) cs td = Some (cs', td')" by simp
      then show ?thesis by (rule Suc.IH)
    next
      case (Element name attrs kids)
      show ?thesis
      proof (cases "route (toLowerCase name)")
        case (Some h)
        obtain cs1 td1 where rh: "run_handler ext sf h i cs td = (cs1, td1)"
          by (cases "run_handler ext sf h i cs td")
        with Suc.prems False Element Some have "step ext sf n 0 cs1 td1 = Some (cs', td')" by simp
        then have "set (texts cs') \<subseteq> set (texts cs1)" by (rule Suc.IH)
        moreover have "set (texts cs1) \<subseteq> set (texts cs)"
          using run_handler_texts[OF assms i, of h td] rh by simp
        ultimately show ?thesis by blast
      next
        case None
        show ?thesis
        proof (cases "kids = []")
          case True
          with Suc.prems False Element None have "step ext sf n (Suc i) cs td = Some (cs', td')" by simp
          then show ?thesis by (rule Suc.IH)
        next
          case ne: False
          from Suc.prems False Element None ne obtain kids' td1 where
            k: "step ext sf n 0 kids td = Some (kids', td1)"
            and rest: "step ext sf n (Suc i) (cs[i := Element name attrs kids']) td1 = Some (cs', td')"
            by (auto split: option.splits)
          have kw: "set (texts kids') \<subseteq> set (texts kids)" using Suc.IH[OF k] .
          have "set (texts cs') \<subseteq> set (texts (cs[i := Element name attrs kids']))"
            using Suc.IH[OF rest] .
          moreover have "cs[i := Element name attrs kids'] = take i cs @ [Element name attrs kids'] @ drop (Suc i) cs"
            using i by (simp add: upd_conv_take_nth_drop)
          moreover have "set (texts [Element name attrs kids']) \<subseteq> set (all_texts (cs ! i))"
            using kw Element by (simp add: texts_def)
          ultimately show ?thesis using texts_splice[OF i, of "[Element name attrs kids']"] by auto
        qed
      qed
    qed
  qed
qed

lemma removing_handlers_text_preserving: "text_preserving removing_handlers"
proof -
  have "set (texts (take i cs @ drop (Suc i) cs)) \<subseteq> set (texts cs)" if "i < length cs" for i and cs :: "node list"
    using texts_splice[OF that, of "[]"] by (simp add: texts_def)
  then show ?thesis by (simp add: text_preserving_def removing_handlers_def)
qed

lemma idle_step_frag_text_preserving: "text_preserving_frag idle_step_frag"
  by (simp add: text_preserving_frag_def idle_step_frag_def)

text \<open>
  C6, as the code has it: the walk itself substitutes nothing. At every text child, with
  or without directives around it, \<^verbatim>\<open>step\<close> goes on to the next child and changes
  neither the child list nor the data. Whenever the directive handlers bring in no text
  of their own, every text content in the result of \<^verbatim>\<open>step\<close> is a text content of its
  input, placeholders as they were. And a subtree without a tag that the switch has a
  label for is returned as it is, once the fuel exceeds the number of its nodes.
\<close>

theorem step_text_verbatim:
  "(i < length cs \<and> cs ! i = Text t \<longrightarrow>
      step ext sf (Suc n) i cs td = step ext sf n (Suc i) cs td) \<and>
   (text_preserving ext \<and> text_preserving_frag sf \<and> step ext sf m 0 ds td = Some (ds', td') \<longrightarrow>
      set (texts ds') \<subseteq> set (texts ds)) \<and>
   (list_all routed_free es \<and> sum_list (map weight es) < k \<longrightarrow>
      step ext sf k 0 es td = Some (es, td))"
proof -
  have a: "i < length cs \<and> cs ! i = Text t \<Longrightarrow>
      step ext sf (Suc n) i cs td = step ext sf n (Suc i) cs td"
    by simp
  have b: "text_preserving ext \<and> text_preserving_frag sf \<and> step ext sf m 0 ds td = Some (ds', td') \<Longrightarrow>
      set (texts ds') \<subseteq> set (texts ds)"
    using step_texts[of ext sf m 0 ds td ds' td'] by blast
  have c: "list_all routed_free es \<and> sum_list (map weight es) < k \<Longrightarrow>
      step ext sf k 0 es td = Some (es, td)"
    using step_routed_free_unchanged[of es 0 k ext sf td] by simp
  from a b c show ?thesis by blast
qed

theorem step_text_verbatim_witness:
  "step removing_handlers idle_step_frag (Suc 3) 1 [Element ''if'' [] [Text ''gone''], Text ''{{$x}}'']
       \<lparr>originalData = JObj [(''x'', JNum 1)], scopes = []\<rparr>
     = step removing_handlers idle_step_frag 3 (Suc 1) [Element ''if'' [] [Text ''gone''], Text ''{{$x}}'']
       \<lparr>originalData = JObj [(''x'', JNum 1)], scopes = []\<rparr> \<and>
   text_preserving removing_handlers \<and> text_preserving_frag idle_step_frag \<and>
   step removing_handlers idle_step_frag 7 0
       [Element ''if'' [] [Text ''gone''], Element ''p'' [] [Text ''Hi {{$user.name}}''], Text ''{{$x}}'']
       \<lparr>originalData = JObj [(''x'', JNum 1)], scopes = []\<rparr>
     = Some ([Element ''p'' [] [Text ''Hi {{$user.name}}''], Text ''{{$x}}''],
             \<lparr>originalData = JObj [(''x'', JNum 1)], scopes = []\<rparr>) \<and>
   set (texts [Element ''p'' [] [Text ''Hi {{$user.name}}''], Text ''{{$x}}''])
     \<subseteq> set (texts [Element ''if'' [] [Text ''gone''], Element ''p'' [] [Text ''Hi {{$user.name}}''], Text ''{{$x}}'']) \<and>
   list_all routed_free [Element ''p'' [] [Text ''Hi {{$user.name}}''], Text ''{{$x}}''] \<and>
   step removing_handlers idle_step_frag 4 0 [Element ''p'' [] [Text ''Hi {{$user.name}}''], Text ''{{$x}}'']
       \<lparr>originalData = JObj [(''x'', JNum 1)], scopes = []\<rparr>
     = Some ([Element ''p'' [] [Text ''Hi {{$user.name}}''], Text ''{{$x}}''],
             \<lparr>originalData = JObj [(''x'', JNum 1)], scopes = []\<rparr>)"
proof -
  have h1: "(1::nat) < length [Element ''if'' [] [Text ''gone''], Text ''{{$x}}''] \<and>
      [Element ''if'' [] [Text ''gone''], Text ''{{$x}}''] ! 1 = Text ''{{$x}}''" by simp
  have h2: "text_preserving removing_handlers \<and> text_preserving_frag idle_step_frag \<and>
      step removing_handlers idle_step_frag 7 0
       [Element ''if'' [] [Text ''gone''], Element ''p'' [] [Text ''Hi {{$user.name}}''], Text ''{{$x}}'']
       \<lparr>originalData = JObj [(''x'', JNum 1)], scopes = []\<rparr>
     = Some ([Element ''p'' [] [Text ''Hi {{$user.name}}''], Text ''{{$x}}''],
             \<lparr>originalData = JObj [(''x'', JNum 1)], scopes = []\<rparr>)"
  proof -
    have "step removing_handlers idle_step_frag 7 0
       [Element ''if'' [] [Text ''gone''], Element ''p'' [] [Text ''Hi {{$user.name}}''], Text ''{{$x}}'']
       \<lparr>originalData = JObj [(''x'', JNum 1)], scopes = []\<rparr>
     = Some ([Element ''p'' [] [Text ''Hi {{$user.name}}''], Text ''{{$x}}''],
             \<lparr>originalData = JObj [(''x'', JNum 1)], scopes = []\<rparr>)"
      by code_simp
    then show ?thesis
      using removing_handlers_text_preserving idle_step_frag_text_preserving by simp
  qed
  have h3: "list_all routed_free [Element ''p'' [] [Text ''Hi {{$user.name}}''], Text ''{{$x}}''] \<and>
      sum_list (map weight [Element ''p'' [] [Text ''Hi {{$user.name}}''], Text ''{{$x}}'']) < 4"
  proof -
    have "list_all routed_free [Element ''p'' [] [Text ''Hi {{$user.name}}''], Text ''{{$x}}'']"
      by code_simp
    then show ?thesis by simp
  qed
  note inst = step_text_verbatim[where i = 1 and cs = "[Element ''if'' [] [Text ''gone''], Text ''{{$x}}'']"
      and t = "''{{$x}}''" and ext = removing_handlers and sf = idle_step_frag and n = 3
      and td = "\<lparr>originalData = JObj [(''x'', JNum 1)], scopes = []\<rparr>" and m = 7
      and ds = "[Element ''if'' [] [Text ''gone''], Element ''p'' [] [Text ''Hi {{$user.name}}''], Text ''{{$x}}'']"
      and ds' = "[Element ''p'' [] [Text ''Hi {{$user.name}}''], Text ''{{$x}}'']"
      and td' = "\<lparr>originalData = JObj [(''x'', JNum 1)], scopes = []\<rparr>" and k = 4
      and es = "[Element ''p'' [] [Text ''Hi {{$user.name}}''], Text ''{{$x}}'']"]
  from inst h1 have c1: "step removing_handlers idle_step_frag (Suc 3) 1 [Element ''if'' [] [Text ''gone''], Text ''{{$x}}'']
       \<lparr>originalData = JObj [(''x'', JNum 1)], scopes = []\<rparr>
     = step removing_handlers idle_step_frag 3 (Suc 1) [Element ''if'' [] [Text ''gone''], Text ''{{$x}}'']
       \<lparr>originalData = JObj [(''x'', JNum 1)], scopes = []\<rparr>" by blast
  from inst h2 have c2: "set (texts [Element ''p'' [] [Text ''Hi {{$user.name}}''], Text ''{{$x}}''])
     \<subseteq> set (texts [Element ''if'' [] [Text ''gone''], Element ''p'' [] [Text ''Hi {{$user.name}}''], Text ''{{$x}}''])"
    by blast
  from inst h3 have c3: "step removing_handlers idle_step_frag 4 0 [Element ''p'' [] [Text ''Hi {{$user.name}}''], Text ''{{$x}}'']
       \<lparr>originalData = JObj [(''x'', JNum 1)], scopes = []\<rparr>
     = Some ([Element ''p'' [] [Text ''Hi {{$user.name}}''], Text ''{{$x}}''],
             \<lparr>originalData = JObj [(''x'', JNum 1)], scopes = []\<rparr>)" by blast
  from c1 c2 c3 h2 h3 show ?thesis by blast
qed

subsection \<open>The \<^verbatim>\<open>case\<close> handler\<close>


lemma case_loop_find:
  "case_loop td val nodes = map_option childNodes (List.find (branch_matches td val) nodes)"
  by (induction nodes) (simp_all add: branch_matches_def Let_def)


lemma querySelectorAll_when_default_kids:
  "querySelectorAll_when_default (Element name attrs kids) =
     concat (map (\<lambda>k. (if is_when_default k then [k] else []) @ querySelectorAll_when_default k) kids)"
  by (induction kids) (simp_all add: querySelectorAll_when_default_def)

text \<open>
  C7. The claim ends with the removal of all \<^verbatim>\<open>when\<close>/\<^verbatim>\<open>default\<close> nodes. The handler
  removes the nodes it has scanned, but what it puts in the place of the \<^verbatim>\<open>case\<close> are
  clones of the children of the branch it took: a \<^verbatim>\<open>when\<close> nested in that branch comes
  with them, stands where the \<^verbatim>\<open>case\<close> stood, and is still there when the dispatcher has
  walked the tree.
\<close>

theorem caseBlock_keeps_nested_when:
  "run_handler removing_handlers idle_step_frag H_caseBlock 0
      [Element ''case'' [('':'', ''1'')]
         [Element ''when'' [('':'', ''1'')] [Text ''a'', Element ''when'' [('':'', ''2'')] [Text ''b'']]]] \<lparr>originalData = JObj [], scopes = []\<rparr>
     = ([Text ''a'', Element ''when'' [('':'', ''2'')] [Text ''b'']], \<lparr>originalData = JObj [], scopes = []\<rparr>) \<and>
   step removing_handlers idle_step_frag 6 0
      [Element ''case'' [('':'', ''1'')]
         [Element ''when'' [('':'', ''1'')] [Text ''a'', Element ''when'' [('':'', ''2'')] [Text ''b'']]]] \<lparr>originalData = JObj [], scopes = []\<rparr>
     = Some ([Text ''a'', Element ''when'' [('':'', ''2'')] [Text ''b'']], \<lparr>originalData = JObj [], scopes = []\<rparr>)"
  by code_simp

text \<open>
  C7, as the code has it: the handler substitutes the \<^verbatim>\<open>:\<close> attribute of the \<^verbatim>\<open>case\<close> once
  to a baseline and takes the first of the \<^verbatim>\<open>when\<close>/\<^verbatim>\<open>default\<close> descendants in document
  order that matches it (a \<^verbatim>\<open>default\<close> always, a \<^verbatim>\<open>when\<close> if its substituted \<^verbatim>\<open>:\<close>
  attribute equals the baseline). The children of that node, as the step on the fragment
  leaves them and with any \<^verbatim>\<open>when\<close>/\<^verbatim>\<open>default\<close> nested in them, stand where the \<^verbatim>\<open>case\<close>
  stood; the \<^verbatim>\<open>case\<close> element is gone, its siblings are as they were. If none matches,
  nothing stands in its place; no branch of the handler raises. Document order is that
  of a walk that visits a node before its children and the children from first to last.
\<close>

theorem caseBlock_first_matching_branch:
  "run_handler ext sf H_caseBlock (length pre) (pre @ element # post) td =
     (case List.find (branch_matches td (replaceHolders (control_or_false element) (templateData_obj td)))
             (querySelectorAll_when_default element) of
        Some b \<Rightarrow> (pre @ fst (sf (childNodes b) td) @ post, snd (sf (childNodes b) td))
      | None \<Rightarrow> (pre @ post, td)) \<and>
   querySelectorAll_when_default (Text t) = [] \<and>
   querySelectorAll_when_default (Element name attrs kids) =
     concat (map (\<lambda>k. (if is_when_default k then [k] else []) @ querySelectorAll_when_default k) kids)"
proof -
  have "run_handler ext sf H_caseBlock (length pre) (pre @ element # post) td =
     (case List.find (branch_matches td (replaceHolders (control_or_false element) (templateData_obj td)))
             (querySelectorAll_when_default element) of
        Some b \<Rightarrow> (pre @ fst (sf (childNodes b) td) @ post, snd (sf (childNodes b) td))
      | None \<Rightarrow> (pre @ post, td))"
    by (simp add: run_handler_def caseBlock_def case_loop_find Let_def split: option.splits prod.splits)
  moreover have "querySelectorAll_when_default (Text t) = []"
    by (simp add: querySelectorAll_when_default_def)
  ultimately show ?thesis using querySelectorAll_when_default_kids by blast
qed

theorem caseBlock_first_matching_branch_witness:
  "run_handler removing_handlers idle_step_frag H_caseBlock (length [Text ''a''])
      ([Text ''a''] @ Element ''case'' [('':'', ''2'')]
          [Element ''when'' [('':'', ''1'')] [Text ''one''],
           Element ''when'' [('':'', ''2'')] [Text ''two''],
           Element ''default'' [] [Text ''other'']] # [Text ''b'']) \<lparr>originalData = JObj [], scopes = []\<rparr>
     = ([Text ''a'', Text ''two'', Text ''b''], \<lparr>originalData = JObj [], scopes = []\<rparr>) \<and>
   run_handler removing_handlers idle_step_frag H_caseBlock (length [Text ''a''])
      ([Text ''a''] @ Element ''case'' [('':'', ''x'')]
          [Element ''when'' [('':'', ''y'')] [Text ''no'', Element ''div'' [] [Element ''when'' [('':'', ''x'')] [Text ''deep'']]],
           Element ''default'' [] [Text ''other'']] # [Text ''b'']) \<lparr>originalData = JObj [], scopes = []\<rparr>
     = ([Text ''a'', Text ''deep'', Text ''b''], \<lparr>originalData = JObj [], scopes = []\<rparr>) \<and>
   run_handler removing_handlers idle_step_frag H_caseBlock (length [Text ''a''])
      ([Text ''a''] @ Element ''case'' [('':'', ''9'')]
          [Element ''when'' [('':'', ''1'')] [Text ''one''],
           Element ''default'' [] [Text ''other''],
           Element ''when'' [('':'', ''9'')] [Text ''nine'']] # [Text ''b'']) \<lparr>originalData = JObj [], scopes = []\<rparr>
     = ([Text ''a'', Text ''other'', Text ''b''], \<lparr>originalData = JObj [], scopes = []\<rparr>) \<and>
   run_handler removing_handlers idle_step_frag H_caseBlock (length [Text ''a''])
      ([Text ''a''] @ Element ''case'' [('':'', ''3'')]
          [Element ''when'' [('':'', ''1'')] [Text ''one''],
           Element ''when'' [('':'', ''2'')] [Text ''two'']] # [Text ''b'']) \<lparr>originalData = JObj [], scopes = []\<rparr>
     = ([Text ''a'', Text ''b''], \<lparr>originalData = JObj [], scopes = []\<rparr>)"
proof -
  have f1: "List.find (branch_matches \<lparr>originalData = JObj [], scopes = []\<rparr>
        (replaceHolders (control_or_false (Element ''case'' [('':'', ''2'')]
          [Element ''when'' [('':'', ''1'')] [Text ''one''],
           Element ''when'' [('':'', ''2'')] [Text ''two''],
           Element ''default'' [] [Text ''other'']])) (templateData_obj \<lparr>originalData = JObj [], scopes = []\<rparr>)))
      (querySelectorAll_when_default (Element ''case'' [('':'', ''2'')]
          [Element ''when'' [('':'', ''1'')] [Text ''one''],
           Element ''when'' [('':'', ''2'')] [Text ''two''],
           Element ''default'' [] [Text ''other'']]))
     = Some (Element ''when'' [('':'', ''2'')] [Text ''two''])"
    by code_simp
  have f2: "List.find (branch_matches \<lparr>originalData = JObj [], scopes = []\<rparr>
        (replaceHolders (control_or_false (Element ''case'' [('':'', ''x'')]
          [Element ''when'' [('':'', ''y'')] [Text ''no'', Element ''div'' [] [Element ''when'' [('':'', ''x'')] [Text ''deep'']]],
           Element ''default'' [] [Text ''other'']])) (templateData_obj \<lparr>originalData = JObj [], scopes = []\<rparr>)))
      (querySelectorAll_when_default (Element ''case'' [('':'', ''x'')]
          [Element ''when'' [('':'', ''y'')] [Text ''no'', Element ''div'' [] [Element ''when'' [('':'', ''x'')] [Text ''deep'']]],
           Element ''default'' [] [Text ''other'']]))
     = Some (Element ''when'' [('':'', ''x'')] [Text ''deep''])"
    by code_simp
  have f3: "List.find (branch_matches \<lparr>originalData = JObj [], scopes = []\<rparr>
        (replaceHolders (control_or_false (Element ''case'' [('':'', ''9'')]
          [Element ''when'' [('':'', ''1'')] [Text ''one''],
           Element ''default'' [] [Text ''other''],
           Element ''when'' [('':'', ''9'')] [Text ''nine'']])) (templateData_obj \<lparr>originalData = JObj [], scopes = []\<rparr>)))
      (querySelectorAll_when_default (Element ''case'' [('':'', ''9'')]
          [Element ''when'' [('':'', ''1'')] [Text ''one''],
           Element ''default'' [] [Text ''other''],
           Element ''when'' [('':'', ''9'')] [Text ''nine'']]))
     = Some (Element ''default'' [] [Text ''other''])"
    by code_simp
  have f4: "List.find (branch_matches \<lparr>originalData = JObj [], scopes = []\<rparr>
        (replaceHolders (control_or_false (Element ''case'' [('':'', ''3'')]
          [Element ''when'' [('':'', ''1'')] [Text ''one''],
           Element ''when'' [('':'', ''2'')] [Text ''two'']])) (templateData_obj \<lparr>originalData = JObj [], scopes = []\<rparr>)))
      (querySelectorAll_when_default (Element ''case'' [('':'', ''3'')]
          [Element ''when'' [('':'', ''1'')] [Text ''one''],
           Element ''when'' [('':'', ''2'')] [Text ''two'']]))
     = None"
    by code_simp
  show ?thesis
    using caseBlock_first_matching_branch[where ext = removing_handlers and sf = idle_step_frag
        and pre = "[Text ''a'']" and post = "[Text ''b'']" and td = "\<lparr>originalData = JObj [], scopes = []\<rparr>"
        and element = "Element ''case'' [('':'', ''2'')]
          [Element ''when'' [('':'', ''1'')] [Text ''one''],
           Element ''when'' [('':'', ''2'')] [Text ''two''],
           Element ''default'' [] [Text ''other'']]", THEN conjunct1]
      caseBlock_first_matching_branch[where ext = removing_handlers and sf = idle_step_frag
        and pre = "[Text ''a'']" and post = "[Text ''b'']" and td = "\<lparr>originalData = JObj [], scopes = []\<rparr>"
        and element = "Element ''case'' [('':'', ''x'')]
          [Element ''when'' [('':'', ''y'')] [Text ''no'', Element ''div'' [] [Element ''when'' [('':'', ''x'')] [Text ''deep'']]],
           Element ''default'' [] [Text ''other'']]", THEN conjunct1]
      caseBlock_first_matching_branch[where ext = removing_handlers and sf = idle_step_frag
        and pre = "[Text ''a'']" and post = "[Text ''b'']" and td = "\<lparr>originalData = JObj [], scopes = []\<rparr>"
        and element = "Element ''case'' [('':'', ''9'')]
          [Element ''when'' [('':'', ''1'')] [Text ''one''],
           Element ''default'' [] [Text ''other''],
           Element ''when'' [('':'', ''9'')] [Text ''nine'']]", THEN conjunct1]
      caseBlock_first_matching_branch[where ext = removing_handlers and sf = idle_step_frag
        and pre = "[Text ''a'']" and post = "[Text ''b'']" and td = "\<lparr>originalData = JObj [], scopes = []\<rparr>"
        and element = "Element ''case'' [('':'', ''3'')]
          [Element ''when'' [('':'', ''1'')] [Text ''one''],
           Element ''when'' [('':'', ''2'')] [Text ''two'']]", THEN conjunct1]
    by (simp only: f1 f2 f3 f4) (simp add: idle_step_frag_def)
qed



subsection \<open>The \<^verbatim>\<open>each\<close> handler\<close>

lemma entries_nonempty: "entries d \<noteq> [] \<Longrightarrow> truthy d \<and> d \<noteq> JArr []"
  by (cases d) auto

lemma each_children_ctx:
  "\<forall>c n. snd (stepc c n) = c \<Longrightarrow> snd (each_children run inner stepc kids (frag, ctx)) = ctx"
proof (induction kids arbitrary: frag)
  case Nil
  then show ?case by simp
next
  case (Cons child rest)
  obtain cl c' where st: "stepc ctx (substitute_clone run inner ctx child) = (cl, c')"
    by (cases "stepc ctx (substitute_clone run inner ctx child)")
  with Cons.prems have "c' = ctx" by (metis snd_conv)
  with st Cons show ?case by simp
qed

lemma bind_entry_twice: "bind_entry key val (bind_entry key val c e1) e2 = bind_entry key val c e2"
  by (auto simp: bind_entry_def fun_upd_twist)

lemma each_entries_Cons:
  "each_entries run inner stepc key val kids (e # es) (frag, ctx)
     = each_entries run inner stepc key val kids es
         (each_children run inner stepc kids (frag, bind_entry key val ctx e))"
  by (cases e) (simp add: bind_entry_def Let_def)

lemma each_entries_ctx:
  assumes "\<forall>c n. snd (stepc c n) = c"
  shows "snd (each_entries run inner stepc key val kids (es @ [e]) (frag, ctx)) = bind_entry key val ctx e"
proof (induction es arbitrary: frag ctx)
  case Nil
  obtain fr c' where r: "each_children run inner stepc kids (frag, bind_entry key val ctx e) = (fr, c')"
    by (cases "each_children run inner stepc kids (frag, bind_entry key val ctx e)")
  have "c' = bind_entry key val ctx e"
    using each_children_ctx[OF assms, of run inner kids frag "bind_entry key val ctx e"] r by simp
  with r show ?case by (simp add: each_entries_Cons del: each_entries.simps(2))
next
  case (Cons x xs)
  obtain fr c' where r: "each_children run inner stepc kids (frag, bind_entry key val ctx x) = (fr, c')"
    by (cases "each_children run inner stepc kids (frag, bind_entry key val ctx x)")
  have c': "c' = bind_entry key val ctx x"
    using each_children_ctx[OF assms, of run inner kids frag "bind_entry key val ctx x"] r by simp
  have "snd (each_entries run inner stepc key val kids ((x # xs) @ [e]) (frag, ctx))
      = snd (each_entries run inner stepc key val kids (xs @ [e]) (fr, c'))"
    using r by (simp add: each_entries_Cons del: each_entries.simps(2))
  also have "\<dots> = bind_entry key val c' e" by (rule Cons.IH)
  also have "\<dots> = bind_entry key val ctx e" by (simp add: c' bind_entry_twice)
  finally show ?case .
qed

text \<open>
  C4. The claim: the bindings of an \<^verbatim>\<open>each\<close> are gone when the handler returns. The handler
  assigns them to the shared context and never takes them back: after a loop over
  \<^verbatim>\<open>[1, 2]\<close> with the value name \<^verbatim>\<open>v\<close>, the context, which had no \<^verbatim>\<open>v\<close>, holds \<^verbatim>\<open>v = 2\<close>.
\<close>

theorem each_binding_leaks:
  "items_context ''v'' = None \<and>
   fst (each ident_eval keep_inner idle_stepc 0
          [Element ''each'' [('':'', ''v in items'')] [Text ''{{v}};'']] items_context)
     = [Text ''1;'', Text ''2;''] \<and>
   snd (each ident_eval keep_inner idle_stepc 0
          [Element ''each'' [('':'', ''v in items'')] [Text ''{{v}};'']] items_context) ''v''
     = Some (JNum 2)"
  by code_simp

text \<open>
  C4, as the code has it: each iteration assigns the value (and the key, when one is
  named) to the shared context before its children are substituted and stepped, and
  nothing removes or restores them. When the nested step leaves the context alone, the
  context after the handler is the one before it with the bindings of the last entry.
\<close>

theorem each_bindings_stay:
  assumes "getAttribute '':'' (cs ! i) = Some query" and "query \<noteq> []"
    and "split_in [] query = placeholderKeys # placeholderData # others"
    and "placeholderKeys \<noteq> []" and "placeholderData \<noteq> []"
    and "parse_keys (trim placeholderKeys) = (key, val)"
    and "run placeholderData ctx = Some d"
    and "entries d = es @ [(k, v)]"
    and "\<forall>c n. snd (stepc c n) = c"
  shows "snd (each run inner stepc i cs ctx)
           = (if key \<noteq> [] then (ctx(val \<mapsto> v))(key \<mapsto> JStr k) else ctx(val \<mapsto> v))"
proof -
  have ne: "entries d \<noteq> []" using assms(8) by simp
  then have tr: "truthy d" and na: "d \<noteq> JArr []" using entries_nonempty by blast+
  obtain frag c' where r: "each_entries run inner stepc key val (childNodes (cs ! i)) (es @ [(k, v)]) ([], ctx) = (frag, c')"
    by (cases "each_entries run inner stepc key val (childNodes (cs ! i)) (es @ [(k, v)]) ([], ctx)")
  have "c' = bind_entry key val ctx (k, v)"
    using each_entries_ctx[OF assms(9), of run inner key val "childNodes (cs ! i)" es "(k, v)" "[]" ctx] r by simp
  then show ?thesis
    using assms(1-8) tr na r by (simp add: each_def Let_def bind_entry_def)
qed

theorem each_bindings_stay_witness:
  "snd (each ident_eval keep_inner idle_stepc 0
          [Element ''each'' [('':'', ''[k, v] in items'')] [Text ''{{k}}={{v}}'']] items_context)
     = (items_context(''v'' \<mapsto> JNum 2))(''k'' \<mapsto> JStr ''1'')"
proof -
  have h1: "getAttribute '':'' ([Element ''each'' [('':'', ''[k, v] in items'')] [Text ''{{k}}={{v}}'']] ! 0)
      = Some ''[k, v] in items''" by simp
  have h2: "''[k, v] in items'' \<noteq> []" by simp
  have h3: "split_in [] ''[k, v] in items'' = ''[k, v]'' # ''items'' # []" by code_simp
  have h4: "''[k, v]'' \<noteq> []" by simp
  have h5: "''items'' \<noteq> []" by simp
  have h6: "parse_keys (trim ''[k, v]'') = (''k'', ''v'')" by code_simp
  have h7: "ident_eval ''items'' items_context = Some (JArr [JNum 1, JNum 2])"
    by (simp add: ident_eval_def items_context_def)
  have h8: "entries (JArr [JNum 1, JNum 2]) = [(''0'', JNum 1)] @ [(''1'', JNum 2)]" by code_simp
  have h9: "\<forall>c n. snd (idle_stepc c n) = c" by (simp add: idle_stepc_def)
  show ?thesis
    using each_bindings_stay[where run = ident_eval and ctx = items_context and stepc = idle_stepc
        and inner = keep_inner and placeholderData = "''items''" and d = "JArr [JNum 1, JNum 2]",
        OF h1 h2 h3 h4 h5 h6 h7 h8 h9]
    by simp
qed

text \<open>
  C9. The claim: a placeholder whose evaluation throws is replaced by the empty or
  undefined value, never left as its original text. The callback returns the whole match
  from its \<^verbatim>\<open>catch\<close>: with \<^verbatim>\<open>nope\<close> unbound, \<^verbatim>\<open>{{nope}}\<close> comes back verbatim in each
  iteration.
\<close>

theorem each_failed_placeholder_verbatim:
  "ident_eval ''nope'' items_context = None \<and>
   fst (each ident_eval keep_inner idle_stepc 0
          [Element ''each'' [('':'', ''v in items'')] [Text ''{{v}}{{nope}}'']] items_context)
     = [Text ''1{{nope}}'', Text ''2{{nope}}'']"
  by code_simp

lemma replace_placeholders_failed_items:
  assumes "\<forall>x\<in>set (placeholder_items s). \<forall>full. cb full x = full"
  shows "replace_placeholders cb s = s"
  using assms
proof (induction "length s" arbitrary: s rule: less_induct)
  case less
  show ?case
  proof (cases s)
    case Nil
    then show ?thesis by (simp add: replace_placeholders.simps)
  next
    case (Cons c cs)
    have items: "placeholder_items s =
        (if is_prefix ''{{'' s then
           (case lazy_close (drop 2 s) of
              Some k \<Rightarrow> take k (drop 2 s) # placeholder_items (drop (k + 4) s)
            | None \<Rightarrow> placeholder_items cs)
         else placeholder_items cs)"
      by (subst placeholder_items.simps) (simp add: Cons)
    have unfold: "replace_placeholders cb s =
        (if is_prefix ''{{'' s then
           (case lazy_close (drop 2 s) of
              Some k \<Rightarrow> cb (take (k + 4) s) (take k (drop 2 s)) @ replace_placeholders cb (drop (k + 4) s)
            | None \<Rightarrow> c # replace_placeholders cb cs)
         else c # replace_placeholders cb cs)"
      by (subst replace_placeholders.simps) (simp add: Cons)
    show ?thesis
    proof (cases "is_prefix ''{{'' s \<and> lazy_close (drop 2 s) \<noteq> None")
      case True
      then obtain k where k: "lazy_close (drop 2 s) = Some k" by auto
      with True items have it: "placeholder_items s = take k (drop 2 s) # placeholder_items (drop (k + 4) s)"
        by simp
      have "replace_placeholders cb (drop (k + 4) s) = drop (k + 4) s"
        using less.hyps[of "drop (k + 4) s"] less.prems it Cons by simp
      moreover have "cb (take (k + 4) s) (take k (drop 2 s)) = take (k + 4) s"
        using less.prems it by simp
      ultimately show ?thesis using unfold True k by simp
    next
      case False
      then have it: "placeholder_items s = placeholder_items cs" using items by (auto split: option.splits)
      have "replace_placeholders cb cs = cs"
        using less.hyps[of cs] less.prems it Cons by simp
      then show ?thesis using unfold False Cons by (auto split: option.splits)
    qed
  qed
qed

lemma filter_upt_first:
  assumes "a \<le> j" "j < m" "\<forall>k. a \<le> k \<and> k < j \<longrightarrow> \<not> P k" "P j"
  shows "filter P [a..<m] = j # filter P [Suc j..<m]"
proof -
  have "[a..<m] = [a..<j] @ j # [Suc j..<m]"
    using assms(1,2) by (metis le_Suc_ex less_imp_le_nat upt_add_eq_append upt_conv_Cons)
  moreover have "filter P [a..<j] = []" using assms(3) by (auto simp: filter_empty_conv)
  ultimately show ?thesis using assms(4) by simp
qed

lemma lazy_close_item:
  assumes "itm \<noteq> []" "\<forall>ch\<in>set itm. ch \<noteq> CHR ''}'' \<and> \<not> is_line_terminator ch"
  shows "lazy_close (itm @ ''}}'' @ rest) = Some (length itm)"
proof -
  let ?r = "itm @ ''}}'' @ rest"
  let ?seg = "takeWhile (\<lambda>c. \<not> is_line_terminator c) ?r"
  have seg: "length itm + 2 \<le> length ?seg"
  proof -
    have "?seg = itm @ takeWhile (\<lambda>c. \<not> is_line_terminator c) (''}}'' @ rest)"
      using assms(2) by (simp add: takeWhile_append2)
    then show ?thesis by (simp add: is_line_terminator_def)
  qed
  have notearly: "\<not> (take 2 (drop k ?r) = ''}}'')" if "k < length itm" for k
  proof -
    have "drop k ?r = itm ! k # drop (Suc k) ?r" using that by (simp add: Cons_nth_drop_Suc nth_append)
    moreover have "itm ! k \<noteq> CHR ''}''" using assms(2) that by simp
    ultimately show ?thesis by simp
  qed
  have at: "take 2 (drop (length itm) ?r) = ''}}''" by simp
  have "filter (\<lambda>k. take 2 (drop k ?r) = ''}}'') [1..<length ?seg + 1]
      = length itm # filter (\<lambda>k. take 2 (drop k ?r) = ''}}'') [Suc (length itm)..<length ?seg + 1]"
  proof (rule filter_upt_first)
    show "1 \<le> length itm" using assms(1) by (cases itm) simp_all
    show "length itm < length ?seg + 1" using seg by simp
    show "\<forall>k. 1 \<le> k \<and> k < length itm \<longrightarrow> \<not> (take 2 (drop k ?r) = ''}}'')" using notearly by blast
    show "take 2 (drop (length itm) ?r) = ''}}''" by (rule at)
  qed
  then show ?thesis by (simp add: lazy_close_def close_positions_def Let_def)
qed

lemma replace_placeholders_match:
  "is_prefix ''{{'' s \<Longrightarrow> lazy_close (drop 2 s) = Some k \<Longrightarrow>
     replace_placeholders cb s
       = cb (take (k + 4) s) (take k (drop 2 s)) @ replace_placeholders cb (drop (k + 4) s)"
  by (subst replace_placeholders.simps) (cases s; simp add: is_prefix_def)

lemma replace_placeholders_head:
  assumes "itm \<noteq> []" "\<forall>ch\<in>set itm. ch \<noteq> CHR ''}'' \<and> \<not> is_line_terminator ch"
  shows "replace_placeholders cb (''{{'' @ itm @ ''}}'' @ rest)
           = cb (''{{'' @ itm @ ''}}'') itm @ replace_placeholders cb rest"
proof -
  define full where "full = ''{{'' @ itm @ ''}}''"
  have len: "length full = length itm + 4" by (simp add: full_def)
  have s: "''{{'' @ itm @ ''}}'' @ rest = full @ rest" by (simp add: full_def)
  have pre: "is_prefix ''{{'' (full @ rest)" by (simp add: is_prefix_def full_def)
  have d2: "drop 2 (full @ rest) = itm @ ''}}'' @ rest" by (simp add: full_def)
  have lc: "lazy_close (drop 2 (full @ rest)) = Some (length itm)"
    using lazy_close_item[OF assms, of rest] d2 by simp
  have tk: "take (length itm + 4) (full @ rest) = full" using len by (metis append_eq_conv_conj)
  have dr: "drop (length itm + 4) (full @ rest) = rest" using len by (metis append_eq_conv_conj)
  have ti: "take (length itm) (drop 2 (full @ rest)) = itm" unfolding d2 by simp
  have "replace_placeholders cb (full @ rest) = cb full itm @ replace_placeholders cb rest"
    using replace_placeholders_match[OF pre lc, of cb] by (simp only: tk dr ti)
  then show ?thesis by (simp only: s full_def)
qed

lemma replace_placeholders_plain_prefix:
  "CHR ''{'' \<notin> set pre \<Longrightarrow> replace_placeholders cb (pre @ s) = pre @ replace_placeholders cb s"
proof (induction pre)
  case Nil
  then show ?case by simp
next
  case (Cons c pre)
  then have "\<not> is_prefix ''{{'' (c # pre @ s)" by (auto simp: is_prefix_def)
  then have "replace_placeholders cb (c # pre @ s) = c # replace_placeholders cb (pre @ s)"
    by (subst replace_placeholders.simps) simp
  with Cons show ?case by simp
qed

text \<open>
  C9, as the code has it: no failure of the evaluator leaves the handler. A throw in the
  control expression leaves the data \<^verbatim>\<open>null\<close>: the children of an \<^verbatim>\<open>else\<close> sibling are
  put in its place if there is one, otherwise the \<^verbatim>\<open>each\<close> element is replaced by
  nothing, and the context is as before. A throw in an inline placeholder makes the
  callback return the match itself: the placeholder stands in the output as it was
  written, the text before it and the substitution of the text after it around it, and a
  text all of whose placeholders throw is unchanged.
\<close>

theorem each_failures_recovered:
  "(getAttribute '':'' (cs ! i) = Some query \<and> query \<noteq> [] \<and>
    split_in [] query = placeholderKeys # placeholderData # others \<and>
    placeholderKeys \<noteq> [] \<and> placeholderData \<noteq> [] \<and> run placeholderData ctx = None \<longrightarrow>
      each run inner stepc i cs ctx =
        (case else_sibling i cs of
           Some j \<Rightarrow> (take j cs @ childNodes (cs ! j) @ drop (Suc j) cs, ctx)
         | None \<Rightarrow> (take i cs @ drop (Suc i) cs, ctx))) \<and>
   (run itm c = None \<longrightarrow> placeholder_callback run c full itm = full) \<and>
   (run itm c = None \<and> itm \<noteq> [] \<and> (\<forall>ch\<in>set itm. ch \<noteq> CHR ''}'' \<and> \<not> is_line_terminator ch) \<and>
    CHR ''{'' \<notin> set pre \<longrightarrow>
      substitute_clone run inner c (Text (pre @ ''{{'' @ itm @ ''}}'' @ rest))
        = Text (pre @ ''{{'' @ itm @ ''}}'' @ replace_placeholders (placeholder_callback run c) rest)) \<and>
   ((\<forall>x\<in>set (placeholder_items t). run x c = None) \<longrightarrow>
      substitute_clone run inner c (Text t) = Text t)"
proof -
  have a: "each run inner stepc i cs ctx =
           (case else_sibling i cs of
              Some j \<Rightarrow> (take j cs @ childNodes (cs ! j) @ drop (Suc j) cs, ctx)
            | None \<Rightarrow> (take i cs @ drop (Suc i) cs, ctx))"
    if "getAttribute '':'' (cs ! i) = Some query \<and> query \<noteq> [] \<and>
        split_in [] query = placeholderKeys # placeholderData # others \<and>
        placeholderKeys \<noteq> [] \<and> placeholderData \<noteq> [] \<and> run placeholderData ctx = None"
    using that by (simp add: each_def Let_def remove_at_def split: option.splits prod.splits)
  have b: "placeholder_callback run c full itm = full" if "run itm c = None" for full
    using that by (simp add: placeholder_callback_def)
  have c: "substitute_clone run inner c (Text (pre @ ''{{'' @ itm @ ''}}'' @ rest))
        = Text (pre @ ''{{'' @ itm @ ''}}'' @ replace_placeholders (placeholder_callback run c) rest)"
    if h: "run itm c = None \<and> itm \<noteq> [] \<and> (\<forall>ch\<in>set itm. ch \<noteq> CHR ''}'' \<and> \<not> is_line_terminator ch) \<and>
        CHR ''{'' \<notin> set pre"
  proof -
    have "replace_placeholders (placeholder_callback run c) (pre @ ''{{'' @ itm @ ''}}'' @ rest)
        = pre @ placeholder_callback run c (''{{'' @ itm @ ''}}'') itm
            @ replace_placeholders (placeholder_callback run c) rest"
      using h replace_placeholders_plain_prefix[of pre "placeholder_callback run c" "''{{'' @ itm @ ''}}'' @ rest"]
        replace_placeholders_head[of itm "placeholder_callback run c" rest]
      by simp
    then show ?thesis using h b by (simp add: substitute_clone_def)
  qed
  have d: "substitute_clone run inner c (Text t) = Text t"
    if "\<forall>x\<in>set (placeholder_items t). run x c = None"
  proof -
    have "\<forall>x\<in>set (placeholder_items t). \<forall>full. placeholder_callback run c full x = full"
      using that by (simp add: placeholder_callback_def)
    then have "replace_placeholders (placeholder_callback run c) t = t"
      by (rule replace_placeholders_failed_items)
    then show ?thesis by (simp add: substitute_clone_def)
  qed
  from a b c d show ?thesis by blast
qed

theorem each_failures_recovered_witness:
  "each literal_eval keep_inner idle_stepc 0
      [Element ''each'' [('':'', ''v in nothing'')] [Text ''{{v}}''], Text '' '', Element ''else'' [] [Text ''none'']]
      items_context
     = ([Element ''each'' [('':'', ''v in nothing'')] [Text ''{{v}}''], Text '' '', Text ''none''], items_context) \<and>
   placeholder_callback literal_eval items_context ''{{nope}}'' ''nope'' = ''{{nope}}'' \<and>
   substitute_clone literal_eval keep_inner items_context (Text (''Hi '' @ ''{{'' @ ''nope'' @ ''}}'' @ '', {{7}} of {{items}}''))
     = Text ''Hi {{nope}}, 7 of 1,2'' \<and>
   substitute_clone literal_eval keep_inner items_context (Text ''{{user}} and {{nope}}'')
     = Text ''{{user}} and {{nope}}''"
proof -
  have h1: "getAttribute '':'' ([Element ''each'' [('':'', ''v in nothing'')] [Text ''{{v}}''], Text '' '',
              Element ''else'' [] [Text ''none'']] ! 0) = Some ''v in nothing'' \<and> ''v in nothing'' \<noteq> [] \<and>
            split_in [] ''v in nothing'' = ''v'' # ''nothing'' # [] \<and> ''v'' \<noteq> [] \<and> ''nothing'' \<noteq> [] \<and>
            literal_eval ''nothing'' items_context = None"
  proof -
    have "split_in [] ''v in nothing'' = ''v'' # ''nothing'' # []" by code_simp
    moreover have "literal_eval ''nothing'' items_context = None" by code_simp
    ultimately show ?thesis by simp
  qed
  have h2: "literal_eval ''nope'' items_context = None" by code_simp
  have h3: "literal_eval ''nope'' items_context = None \<and> ''nope'' \<noteq> [] \<and>
            (\<forall>ch\<in>set ''nope''. ch \<noteq> CHR ''}'' \<and> \<not> is_line_terminator ch) \<and> CHR ''{'' \<notin> set ''Hi ''"
    using h2 by (simp add: is_line_terminator_def)
  have h4: "\<forall>x\<in>set (placeholder_items ''{{user}} and {{nope}}''). literal_eval x items_context = None"
  proof -
    have "placeholder_items ''{{user}} and {{nope}}'' = [''user'', ''nope'']" by code_simp
    moreover have "literal_eval ''user'' items_context = None" by code_simp
    ultimately show ?thesis using h2 by simp
  qed
  have e: "else_sibling 0 [Element ''each'' [('':'', ''v in nothing'')] [Text ''{{v}}''], Text '' '',
              Element ''else'' [] [Text ''none'']] = Some 2" by code_simp
  have r: "replace_placeholders (placeholder_callback literal_eval items_context) '', {{7}} of {{items}}''
             = '', 7 of 1,2''" by code_simp
  note inst = each_failures_recovered[where run = literal_eval and ctx = items_context and c = items_context
        and itm = "''nope''" and placeholderData = "''nothing''" and placeholderKeys = "''v''" and others = "[]"
        and query = "''v in nothing''" and inner = keep_inner and i = 0
        and cs = "[Element ''each'' [('':'', ''v in nothing'')] [Text ''{{v}}''], Text '' '',
              Element ''else'' [] [Text ''none'']]"
        and stepc = idle_stepc and full = "''{{nope}}''" and pre = "''Hi ''" and rest = "'', {{7}} of {{items}}''"
        and t = "''{{user}} and {{nope}}''"]
  from inst h1 have c1: "each literal_eval keep_inner idle_stepc 0
      [Element ''each'' [('':'', ''v in nothing'')] [Text ''{{v}}''], Text '' '', Element ''else'' [] [Text ''none'']]
      items_context
     = (case else_sibling 0 [Element ''each'' [('':'', ''v in nothing'')] [Text ''{{v}}''], Text '' '',
              Element ''else'' [] [Text ''none'']] of
          Some j \<Rightarrow> (take j [Element ''each'' [('':'', ''v in nothing'')] [Text ''{{v}}''], Text '' '',
              Element ''else'' [] [Text ''none'']] @ childNodes ([Element ''each'' [('':'', ''v in nothing'')] [Text ''{{v}}''], Text '' '',
              Element ''else'' [] [Text ''none'']] ! j) @ drop (Suc j) [Element ''each'' [('':'', ''v in nothing'')] [Text ''{{v}}''], Text '' '',
              Element ''else'' [] [Text ''none'']], items_context)
        | None \<Rightarrow> (take 0 [Element ''each'' [('':'', ''v in nothing'')] [Text ''{{v}}''], Text '' '',
              Element ''else'' [] [Text ''none'']] @ drop (Suc 0) [Element ''each'' [('':'', ''v in nothing'')] [Text ''{{v}}''], Text '' '',
              Element ''else'' [] [Text ''none'']], items_context))" by blast
  from inst h2 have c2: "placeholder_callback literal_eval items_context ''{{nope}}'' ''nope'' = ''{{nope}}''"
    by blast
  from inst h3 have c3: "substitute_clone literal_eval keep_inner items_context
        (Text (''Hi '' @ ''{{'' @ ''nope'' @ ''}}'' @ '', {{7}} of {{items}}''))
      = Text (''Hi '' @ ''{{'' @ ''nope'' @ ''}}'' @
              replace_placeholders (placeholder_callback literal_eval items_context) '', {{7}} of {{items}}'')"
    by blast
  from inst h4 have c4: "substitute_clone literal_eval keep_inner items_context (Text ''{{user}} and {{nope}}'')
     = Text ''{{user}} and {{nope}}''" by blast
  have c1': "each literal_eval keep_inner idle_stepc 0
      [Element ''each'' [('':'', ''v in nothing'')] [Text ''{{v}}''], Text '' '', Element ''else'' [] [Text ''none'']]
      items_context
     = ([Element ''each'' [('':'', ''v in nothing'')] [Text ''{{v}}''], Text '' '', Text ''none''], items_context)"
    using c1 by (simp add: e)
  have c3': "substitute_clone literal_eval keep_inner items_context
        (Text (''Hi '' @ ''{{'' @ ''nope'' @ ''}}'' @ '', {{7}} of {{items}}''))
      = Text ''Hi {{nope}}, 7 of 1,2''"
    using c3 by (simp only: r) simp
  from c1' c2 c3' c4 show ?thesis by blast
qed

subsection \<open>The template resolver\<close>

lemma extend_without_extends:
  "querySelector_scope_extends (document tpl) = None \<Longrightarrow>
     extend dirname resolve parseFile tpl = Inr tpl"
  by (simp add: extend_def)

lemma extend_result:
  "extend dirname resolve parseFile tpl = Inr t \<Longrightarrow>
     t = tpl \<or> (\<exists>f loaded. parseFile f = Inr (Some loaded) \<and>
                   t = Template (document loaded) (file_of loaded) (Some tpl))"
  by (auto simp: extend_def Let_def split: option.splits if_splits sum.splits prod.splits)

text \<open>
  C1. For \<^verbatim>\<open>A\<close> extends \<^verbatim>\<open>B\<close> extends \<^verbatim>\<open>C\<close> the resolver is meant to return the topmost
  ancestor \<^verbatim>\<open>C\<close> with the content of \<^verbatim>\<open>A\<close> in its slot. It never gets there. With the
  \<^verbatim>\<open>extends\<close> child of \<^verbatim>\<open>B\<close> in place, the splice of the document of \<^verbatim>\<open>A\<close> is refused and
  the call ends in a \<^verbatim>\<open>HierarchyRequestError\<close>. With a parent that has no \<^verbatim>\<open>extends\<close>
  element the parent is returned as loaded, nothing of \<^verbatim>\<open>A\<close> in it. And for a file as an
  HTML parser delivers it, where the \<^verbatim>\<open>extends\<close> element is in the body and not a child
  of the document element, \<^verbatim>\<open>A\<close> itself is returned.
\<close>

theorem extend_never_reaches_ancestor:
  "extend flat_dirname flat_resolve (load_from [(''B.rtpl'', chain_B), (''C.rtpl'', chain_C)]) chain_A
     = Inl HierarchyRequestError \<and>
   extend flat_dirname flat_resolve (load_from [(''B.rtpl'', chain_B_plain), (''C.rtpl'', chain_C)]) chain_A
     = Inr (Template (Document [Element ''html'' [] [Element ''h1'' [] [Text ''b'']]]) ''B.rtpl'' (Some chain_A)) \<and>
   extend flat_dirname flat_resolve (load_from [(''B.rtpl'', chain_B), (''C.rtpl'', chain_C)]) parsed_A
     = Inr parsed_A"
  by code_simp

end
